theory Spec2Isabelle
  imports Main "HOL-Library.Char_ord" "HOL-Library.List_Lexorder" "HOL-Library.Sublist"
    "HOL-Library.Multiset" "HOL-Library.AList"
begin

section \<open>Values of the Python program\<close>

text \<open>
  The request body (\<^verbatim>\<open>request.get_json()\<close>) is a JSON value. Python dictionaries keep
  insertion order and have unique keys, so an object is an association list; the predicate
  \<open>wf_json\<close> below says that the keys of every object are distinct. JSON numbers are
  modelled for integers only (Python's unbounded \<^verbatim>\<open>int\<close>); floating point numbers are
  outside the model. A Python \<^verbatim>\<open>str\<close> is a \<open>string\<close> whose characters are the code
  points below 256.
\<close>

datatype json =
    JNull
  | JBool bool
  | JInt int
  | JStr string
  | JArr "json list"
  | JObj "(string \<times> json) list"

fun wf_json :: "json \<Rightarrow> bool" where
  "wf_json (JArr xs) = list_all wf_json xs"
| "wf_json (JObj kvs) = (distinct (map fst kvs) \<and> list_all (\<lambda>kv. wf_json (snd kv)) kvs)"
| "wf_json _ = True"

text \<open>The exceptions the handlers can meet; every handler catches \<^verbatim>\<open>Exception\<close>.\<close>

datatype exn =
    TypeError
  | ValueError
  | KeyError
  | AttributeError
  | OverflowError
  | JSONDecodeError
  | InterfaceError
  | IntegrityError
  | OperationalError

text \<open>\<open>then_exn\<close> sequences two steps, the second of which runs only if the first did not raise.\<close>

definition then_exn :: "exn + 'a \<Rightarrow> ('a \<Rightarrow> exn + 'b) \<Rightarrow> exn + 'b" where
  "then_exn r f = (case r of Inl e \<Rightarrow> Inl e | Inr x \<Rightarrow> f x)"

subsection \<open>Decimal numerals\<close>

definition is_digit :: "char \<Rightarrow> bool" where
  "is_digit c = (CHR ''0'' \<le> c \<and> c \<le> CHR ''9'')"

definition digit_val :: "char \<Rightarrow> nat" where
  "digit_val c = of_char c - 48"

definition digit_char :: "nat \<Rightarrow> char" where
  "digit_char d = char_of (48 + d)"

fun show_nat :: "nat \<Rightarrow> string" where
  "show_nat n = (if n < 10 then [digit_char n] else show_nat (n div 10) @ [digit_char (n mod 10)])"

declare show_nat.simps [simp del]

text \<open>\<^verbatim>\<open>str(n)\<close> of a Python integer.\<close>

definition show_int :: "int \<Rightarrow> string" where
  "show_int i = (if i < 0 then CHR ''-'' # show_nat (nat (- i)) else show_nat (nat i))"

definition read_nat :: "string \<Rightarrow> nat" where
  "read_nat ds = foldl (\<lambda>a c. 10 * a + digit_val c) 0 ds"

text \<open>Zero-padded decimal of width \<open>w\<close>, as \<^verbatim>\<open>'%0wd'\<close> prints it.\<close>

definition pad :: "nat \<Rightarrow> nat \<Rightarrow> string" where
  "pad w n = replicate (w - length (show_nat n)) CHR ''0'' @ show_nat n"

section \<open>JSON text\<close>

text \<open>
  \<^verbatim>\<open>json.dumps\<close> with its default settings: the separators are \<^verbatim>\<open>', '\<close> and \<^verbatim>\<open>': '\<close>, and
  a string is written in ASCII (\<^verbatim>\<open>ensure_ascii\<close>): the quote and the backslash are escaped,
  the control characters have their short escapes, and any other character outside
  \<^verbatim>\<open>' '..'~'\<close> is written \<^verbatim>\<open>\u00XX\<close>.
\<close>

definition dquote :: char where
  "dquote = CHR 0x22"

definition backslash :: char where
  "backslash = CHR 0x5C"

definition hex_digit :: "nat \<Rightarrow> char" where
  "hex_digit d = (if d < 10 then char_of (48 + d) else char_of (87 + d))"

definition escape_char :: "char \<Rightarrow> string" where
  "escape_char c =
     (if c = dquote then [backslash, dquote]
      else if c = backslash then [backslash, backslash]
      else if c = CHR 0x0A then [backslash, CHR ''n'']
      else if c = CHR 0x0D then [backslash, CHR ''r'']
      else if c = CHR 0x09 then [backslash, CHR ''t'']
      else if c = CHR 0x0C then [backslash, CHR ''f'']
      else if c = CHR 0x08 then [backslash, CHR ''b'']
      else if CHR 0x20 \<le> c \<and> c \<le> CHR 0x7E then [c]
      else [backslash, CHR ''u'', CHR ''0'', CHR ''0'',
            hex_digit (of_char c div 16), hex_digit (of_char c mod 16)])"

definition encode_basestring :: "string \<Rightarrow> string" where
  "encode_basestring s = dquote # concat (map escape_char s) @ [dquote]"

fun json_dumps :: "json \<Rightarrow> string"
  and dumps_items :: "json list \<Rightarrow> string"
  and dumps_pairs :: "(string \<times> json) list \<Rightarrow> string" where
  "json_dumps JNull = ''null''"
| "json_dumps (JBool b) = (if b then ''true'' else ''false'')"
| "json_dumps (JInt i) = show_int i"
| "json_dumps (JStr s) = encode_basestring s"
| "json_dumps (JArr xs) = ''['' @ dumps_items xs @ '']''"
| "json_dumps (JObj kvs) = ''{'' @ dumps_pairs kvs @ ''}''"
| "dumps_items [] = []"
| "dumps_items [x] = json_dumps x"
| "dumps_items (x # y # ys) = json_dumps x @ '', '' @ dumps_items (y # ys)"
| "dumps_pairs [] = []"
| "dumps_pairs [(k, v)] = encode_basestring k @ '': '' @ json_dumps v"
| "dumps_pairs ((k, v) # p # ps) =
     encode_basestring k @ '': '' @ json_dumps v @ '', '' @ dumps_pairs (p # ps)"

text \<open>
  \<^verbatim>\<open>json.loads\<close>. The decoder skips white space around every token, reads a string up to
  its closing quote and undoes the escapes, and builds a dictionary from the members of an
  object in their order, a later member replacing the value of an earlier one with the same
  key. \<open>None\<close> is the \<^verbatim>\<open>JSONDecodeError\<close>. Two kinds of text that Python decodes have no
  value in this model, and the decoder has no result on them either: a number with a
  fraction or an exponent, and a \<^verbatim>\<open>\uXXXX\<close> escape of a code point above 255.
  The recursion of the decoder is bounded by a counter that \<open>json_loads\<close> starts at
  one more than the length of the text.
\<close>

definition is_ws :: "char \<Rightarrow> bool" where
  "is_ws c = (c = CHR '' '' \<or> c = CHR 0x09 \<or> c = CHR 0x0A \<or> c = CHR 0x0D)"

definition skip_ws :: "string \<Rightarrow> string" where
  "skip_ws s = dropWhile is_ws s"

definition is_hex :: "char \<Rightarrow> bool" where
  "is_hex c = (is_digit c \<or> (CHR ''a'' \<le> c \<and> c \<le> CHR ''f'') \<or> (CHR ''A'' \<le> c \<and> c \<le> CHR ''F''))"

definition hex_val :: "char \<Rightarrow> nat" where
  "hex_val c =
     (if is_digit c then of_char c - 48
      else if CHR ''a'' \<le> c then of_char c - 87 else of_char c - 55)"

definition read_hex :: "string \<Rightarrow> nat" where
  "read_hex ds = foldl (\<lambda>a c. 16 * a + hex_val c) 0 ds"

definition unescape :: "char \<Rightarrow> char option" where
  "unescape e =
     (if e = dquote then Some dquote
      else if e = backslash then Some backslash
      else if e = CHR ''/'' then Some CHR ''/''
      else if e = CHR ''b'' then Some (CHR 0x08)
      else if e = CHR ''f'' then Some (CHR 0x0C)
      else if e = CHR ''n'' then Some (CHR 0x0A)
      else if e = CHR ''r'' then Some (CHR 0x0D)
      else if e = CHR ''t'' then Some (CHR 0x09)
      else None)"

definition cons_result :: "char \<Rightarrow> (string \<times> string) option \<Rightarrow> (string \<times> string) option" where
  "cons_result c r = (case r of None \<Rightarrow> None | Some (str, rest) \<Rightarrow> Some (c # str, rest))"

text \<open>The characters after an opening quote: the string, and the text after its closing quote.\<close>

fun scanstring :: "string \<Rightarrow> (string \<times> string) option" where
  "scanstring [] = None"
| "scanstring (c # cs) =
     (if c = dquote then Some ([], cs)
      else if c = backslash then
        (case cs of
           [] \<Rightarrow> None
         | e # r \<Rightarrow>
             (if e = CHR ''u'' then
                (if 4 \<le> length r \<and> list_all is_hex (take 4 r) \<and> read_hex (take 4 r) < 256
                 then cons_result (char_of (read_hex (take 4 r))) (scanstring (drop 4 r))
                 else None)
              else (case unescape e of
                      None \<Rightarrow> None
                    | Some ch \<Rightarrow> cons_result ch (scanstring r))))
      else if c < CHR 0x20 then None
      else cons_result c (scanstring cs))"

text \<open>A number: \<^verbatim>\<open>-?(0|[1-9][0-9]*)\<close>, not followed by a fraction or an exponent.\<close>

definition starts_fraction :: "string \<Rightarrow> bool" where
  "starts_fraction r =
     (case r of
        c # d # r' \<Rightarrow>
          (c = CHR ''.'' \<and> is_digit d) \<or>
          ((c = CHR ''e'' \<or> c = CHR ''E'') \<and>
           (is_digit d \<or> ((d = CHR ''+'' \<or> d = CHR ''-'') \<and> (case r' of [] \<Rightarrow> False | x # _ \<Rightarrow> is_digit x))))
      | _ \<Rightarrow> False)"

definition parse_number :: "string \<Rightarrow> (json \<times> string) option" where
  "parse_number s =
     (let neg = (case s of [] \<Rightarrow> False | c # _ \<Rightarrow> c = CHR ''-'');
          s1 = (if neg then tl s else s)
      in case s1 of
           [] \<Rightarrow> None
         | d # ds \<Rightarrow>
             (if \<not> is_digit d then None
              else let digs = (if d = CHR ''0'' then [d] else d # takeWhile is_digit ds);
                       rest = drop (length digs) s1
                   in if starts_fraction rest then None
                      else Some (JInt (if neg then - int (read_nat digs) else int (read_nat digs)),
                                 rest)))"

text \<open>\<^verbatim>\<open>dict\<close> of a list of pairs.\<close>

definition dict_of :: "(string \<times> json) list \<Rightarrow> (string \<times> json) list" where
  "dict_of kvs = foldl (\<lambda>d kv. AList.update (fst kv) (snd kv) d) [] kvs"

fun parse_value :: "nat \<Rightarrow> string \<Rightarrow> (json \<times> string) option"
  and parse_elements :: "nat \<Rightarrow> string \<Rightarrow> (json list \<times> string) option"
  and parse_members :: "nat \<Rightarrow> string \<Rightarrow> ((string \<times> json) list \<times> string) option" where
  "parse_value 0 s = None"
| "parse_value (Suc n) s =
     (case s of
        [] \<Rightarrow> None
      | c # cs \<Rightarrow>
          (if c = dquote then
             (case scanstring cs of None \<Rightarrow> None | Some (str, r) \<Rightarrow> Some (JStr str, r))
           else if c = CHR ''{'' then
             (case skip_ws cs of
                [] \<Rightarrow> None
              | d # r \<Rightarrow>
                  (if d = CHR ''}'' then Some (JObj [], r)
                   else (case parse_members n (d # r) of
                           None \<Rightarrow> None
                         | Some (kvs, r') \<Rightarrow> Some (JObj (dict_of kvs), r'))))
           else if c = CHR ''['' then
             (case skip_ws cs of
                [] \<Rightarrow> None
              | d # r \<Rightarrow>
                  (if d = CHR '']'' then Some (JArr [], r)
                   else (case parse_elements n (d # r) of
                           None \<Rightarrow> None
                         | Some (vs, r') \<Rightarrow> Some (JArr vs, r'))))
           else if take 4 s = ''null'' then Some (JNull, drop 4 s)
           else if take 4 s = ''true'' then Some (JBool True, drop 4 s)
           else if take 5 s = ''false'' then Some (JBool False, drop 5 s)
           else parse_number s))"
| "parse_elements 0 s = None"
| "parse_elements (Suc n) s =
     (case parse_value n s of
        None \<Rightarrow> None
      | Some (v, r) \<Rightarrow>
          (case skip_ws r of
             [] \<Rightarrow> None
           | c # r' \<Rightarrow>
               (if c = CHR '']'' then Some ([v], r')
                else if c = CHR '','' then
                  (case parse_elements n (skip_ws r') of
                     None \<Rightarrow> None
                   | Some (vs, r'') \<Rightarrow> Some (v # vs, r''))
                else None)))"
| "parse_members 0 s = None"
| "parse_members (Suc n) s =
     (case s of
        [] \<Rightarrow> None
      | q # s1 \<Rightarrow>
          (if q \<noteq> dquote then None
           else case scanstring s1 of
                  None \<Rightarrow> None
                | Some (k, r) \<Rightarrow>
                    (case skip_ws r of
                       [] \<Rightarrow> None
                     | c # r1 \<Rightarrow>
                         (if c \<noteq> CHR '':'' then None
                          else case parse_value n (skip_ws r1) of
                                 None \<Rightarrow> None
                               | Some (v, r2) \<Rightarrow>
                                   (case skip_ws r2 of
                                      [] \<Rightarrow> None
                                    | c' # r3 \<Rightarrow>
                                        (if c' = CHR ''}'' then Some ([(k, v)], r3)
                                         else if c' = CHR '','' then
                                           (case parse_members n (skip_ws r3) of
                                              None \<Rightarrow> None
                                            | Some (kvs, r4) \<Rightarrow> Some ((k, v) # kvs, r4))
                                         else None))))))"

definition json_loads :: "string \<Rightarrow> json option" where
  "json_loads s =
     (case parse_value (Suc (length s)) (skip_ws s) of
        None \<Rightarrow> None
      | Some (v, r) \<Rightarrow> if skip_ws r = [] then Some v else None)"

text \<open>
  Two predicates on the text that follows or starts a value, for the proofs about the
  decoder: \<open>tok_end\<close> holds of a text that is empty or starts with a comma or a closing
  bracket, which is what follows a value inside a document that \<^verbatim>\<open>json.dumps\<close> printed;
  \<open>starts_value\<close> holds of a text whose first character is neither white space nor a
  closing bracket.
\<close>

definition tok_end :: "string \<Rightarrow> bool" where
  "tok_end r = (case r of [] \<Rightarrow> True | c # _ \<Rightarrow> c = CHR '','' \<or> c = CHR '']'' \<or> c = CHR ''}'')"

definition starts_value :: "string \<Rightarrow> bool" where
  "starts_value s = (case s of [] \<Rightarrow> False
     | c # _ \<Rightarrow> \<not> is_ws c \<and> c \<noteq> CHR '']'' \<and> c \<noteq> CHR ''}'')"

section \<open>Dates and times\<close>

text \<open>
  A \<^verbatim>\<open>datetime\<close> object: its civil fields and, when it is timezone-aware, its UTC offset
  (in microseconds, the resolution of \<^verbatim>\<open>timedelta\<close>). \<^verbatim>\<open>datetime.date()\<close> returns the
  date with the same year, month and day: it reads the civil fields and converts nothing.
\<close>

record datetime =
  year :: nat
  month :: nat
  day :: nat
  hour :: nat
  minute :: nat
  second :: nat
  microsecond :: nat
  utcoffset :: "int option"

type_synonym date = "nat \<times> nat \<times> nat"

definition date_of :: "datetime \<Rightarrow> date" where
  "date_of d = (year d, month d, day d)"

definition is_same_day :: "datetime \<Rightarrow> datetime \<Rightarrow> bool" where
  "is_same_day date1 date2 = (date_of date1 = date_of date2)"

definition is_leap :: "nat \<Rightarrow> bool" where
  "is_leap y = (y mod 4 = 0 \<and> (y mod 100 \<noteq> 0 \<or> y mod 400 = 0))"

definition days_in_month :: "nat \<Rightarrow> nat \<Rightarrow> nat" where
  "days_in_month y m =
     (if m = 2 then (if is_leap y then 29 else 28)
      else if m \<in> {4, 6, 9, 11} then 30 else 31)"

text \<open>
  \<^verbatim>\<open>datetime.fromisoformat\<close>, for the format its documentation gives:
  \<^verbatim>\<open>YYYY-MM-DD[*HH[:MM[:SS[.fff[fff]]]][+HH:MM[:SS[.ffffff]]]]\<close>, where \<^verbatim>\<open>*\<close> is any single
  character. \<open>None\<close> is the \<^verbatim>\<open>ValueError\<close> it raises on any other string and on fields
  out of range.
\<close>

definition all_digits :: "string \<Rightarrow> bool" where
  "all_digits s = list_all is_digit s"

definition parse_isoformat_date :: "string \<Rightarrow> date option" where
  "parse_isoformat_date s =
     (if length s = 10 \<and> all_digits (take 4 s) \<and> s ! 4 = CHR ''-'' \<and>
         all_digits (take 2 (drop 5 s)) \<and> s ! 7 = CHR ''-'' \<and> all_digits (drop 8 s)
      then Some (read_nat (take 4 s), read_nat (take 2 (drop 5 s)), read_nat (drop 8 s))
      else None)"

text \<open>\<^verbatim>\<open>HH[:MM[:SS[.fff[fff]]]]\<close>: hour, minute, second, microsecond.\<close>

definition parse_hh_mm_ss_ff :: "string \<Rightarrow> (nat \<times> nat \<times> nat \<times> nat) option" where
  "parse_hh_mm_ss_ff s =
     (let n = length s in
      if n \<notin> {2, 5, 8, 12, 15} then None
      else if \<not> all_digits (take 2 s) then None
      else if 5 \<le> n \<and> (s ! 2 \<noteq> CHR '':'' \<or> \<not> all_digits (take 2 (drop 3 s))) then None
      else if 8 \<le> n \<and> (s ! 5 \<noteq> CHR '':'' \<or> \<not> all_digits (take 2 (drop 6 s))) then None
      else if 12 \<le> n \<and> (s ! 8 \<noteq> CHR ''.'' \<or> \<not> all_digits (drop 9 s)) then None
      else Some (read_nat (take 2 s),
                 (if 5 \<le> n then read_nat (take 2 (drop 3 s)) else 0),
                 (if 8 \<le> n then read_nat (take 2 (drop 6 s)) else 0),
                 (if n = 12 then read_nat (drop 9 s) * 1000
                  else if n = 15 then read_nat (drop 9 s) else 0)))"

definition parse_isoformat_time ::
  "string \<Rightarrow> ((nat \<times> nat \<times> nat \<times> nat) \<times> int option) option" where
  "parse_isoformat_time s =
     (let tpart = takeWhile (\<lambda>c. c \<noteq> CHR ''+'' \<and> c \<noteq> CHR ''-'') s;
          tzpart = dropWhile (\<lambda>c. c \<noteq> CHR ''+'' \<and> c \<noteq> CHR ''-'') s
      in case parse_hh_mm_ss_ff tpart of None \<Rightarrow> None
         | Some t \<Rightarrow>
           (case tzpart of [] \<Rightarrow> Some (t, None)
            | sc # tz \<Rightarrow>
              (if length tzpart \<notin> {6, 9, 16} then None
               else case parse_hh_mm_ss_ff tz of None \<Rightarrow> None
                 | Some (h, m, sec, us) \<Rightarrow>
                   Some (t, Some ((if sc = CHR ''-'' then - 1 else 1) *
                      (((int h * 3600 + int m * 60 + int sec) * 1000000) + int us))))))"

definition valid_datetime :: "datetime \<Rightarrow> bool" where
  "valid_datetime d =
     (1 \<le> year d \<and> year d \<le> 9999 \<and> 1 \<le> month d \<and> month d \<le> 12 \<and>
      1 \<le> day d \<and> day d \<le> days_in_month (year d) (month d) \<and>
      hour d < 24 \<and> minute d < 60 \<and> second d < 60 \<and> microsecond d < 1000000 \<and>
      (case utcoffset d of None \<Rightarrow> True
       | Some off \<Rightarrow> - 86400000000 < off \<and> off < 86400000000))"

definition fromisoformat :: "string \<Rightarrow> datetime option" where
  "fromisoformat s =
     (case parse_isoformat_date (take 10 s) of None \<Rightarrow> None
      | Some (y, m, d) \<Rightarrow>
        (case (if length s \<le> 10 then Some ((0, 0, 0, 0), None)
               else parse_isoformat_time (drop 11 s)) of
           None \<Rightarrow> None
         | Some ((h, mi, sec, us), off) \<Rightarrow>
           (let dt = \<lparr>year = y, month = m, day = d, hour = h, minute = mi, second = sec,
                       microsecond = us, utcoffset = off\<rparr>
            in if valid_datetime dt then Some dt else None)))"

text \<open>\<^verbatim>\<open>s.replace('Z', '+00:00')\<close>: every occurrence is replaced.\<close>

definition replace_Z :: "string \<Rightarrow> string" where
  "replace_Z s = concat (map (\<lambda>c. if c = CHR ''Z'' then ''+00:00'' else [c]) s)"

text \<open>\<^verbatim>\<open>date.isoformat()\<close> and \<^verbatim>\<open>datetime.isoformat()\<close>.\<close>

definition date_isoformat :: "date \<Rightarrow> string" where
  "date_isoformat d =
     (case d of (y, m, dd) \<Rightarrow> pad 4 y @ ''-'' @ pad 2 m @ ''-'' @ pad 2 dd)"

definition offset_isoformat :: "int \<Rightarrow> string" where
  "offset_isoformat off =
     (let a = nat \<bar>off\<bar>; us = a mod 1000000; s = a div 1000000
      in (if off < 0 then ''-'' else ''+'') @ pad 2 (s div 3600) @ '':'' @ pad 2 (s div 60 mod 60) @
         (if s mod 60 \<noteq> 0 \<or> us \<noteq> 0 then '':'' @ pad 2 (s mod 60) else []) @
         (if us \<noteq> 0 then ''.'' @ pad 6 us else []))"

definition isoformat :: "datetime \<Rightarrow> string" where
  "isoformat d =
     date_isoformat (date_of d) @ ''T'' @ pad 2 (hour d) @ '':'' @ pad 2 (minute d) @ '':'' @
     pad 2 (second d) @
     (if microsecond d \<noteq> 0 then ''.'' @ pad 6 (microsecond d) else []) @
     (case utcoffset d of None \<Rightarrow> [] | Some off \<Rightarrow> offset_isoformat off)"

section \<open>The store\<close>

text \<open>
  The \<^verbatim>\<open>sqlite3\<close> module binds \<^verbatim>\<open>None\<close> as NULL, an \<^verbatim>\<open>int\<close> (and so a \<^verbatim>\<open>bool\<close>) as
  a 64-bit INTEGER and a \<^verbatim>\<open>str\<close> as TEXT; it refuses a list or a dictionary, and an
  integer that does not fit 64 bits. Every column of the three tables has TEXT affinity,
  which stores an INTEGER as its decimal text; a parameter compared with such a column is
  converted the same way.
\<close>

datatype sqlval = SqlNull | SqlInt int | SqlText string

fun bind_param :: "json \<Rightarrow> exn + sqlval" where
  "bind_param JNull = Inr SqlNull"
| "bind_param (JBool b) = Inr (SqlInt (if b then 1 else 0))"
| "bind_param (JInt n) =
     (if - (2 ^ 63) \<le> n \<and> n < 2 ^ 63 then Inr (SqlInt n) else Inl OverflowError)"
| "bind_param (JStr s) = Inr (SqlText s)"
| "bind_param (JArr xs) = Inl InterfaceError"
| "bind_param (JObj kvs) = Inl InterfaceError"

fun text_affinity :: "sqlval \<Rightarrow> string option" where
  "text_affinity SqlNull = None"
| "text_affinity (SqlInt n) = Some (show_int n)"
| "text_affinity (SqlText s) = Some s"

text \<open>
  The rows of the three tables, in insertion order. A column declared \<^verbatim>\<open>NOT NULL\<close> holds a
  string, any other column a string or NULL (SQLite allows NULL in a \<^verbatim>\<open>TEXT PRIMARY KEY\<close>).
\<close>

record avaliacao =
  a_id :: "string option"
  a_dispositivo_id :: string
  a_timestamp :: string
  a_avaliacao_geral :: string
  a_setores :: "string option"
  a_feedback :: "string option"
  a_created_at :: string

record controle =
  c_dispositivo_id :: "string option"
  c_ultimo_voto :: string
  c_created_at :: string
  c_updated_at :: string

text \<open>
  A row of \<^verbatim>\<open>logs_sistema\<close>. The details are an f-string; its literal pieces and the
  values it interpolates are kept apart, and \<^verbatim>\<open>str()\<close> of the values is not modelled.
\<close>

datatype fpart = Lit string | Val json

record log_entry =
  l_acao :: string
  l_detalhes :: "fpart list"
  l_timestamp :: string

text \<open>A record of the Python \<^verbatim>\<open>logger\<close>: the message, and the exception it prints.\<close>

datatype log_record = LogError string exn | LogInfo string

text \<open>
  The state a request runs on: the three tables and what the logger has printed so far.
\<close>

record state =
  avaliacoes :: "avaliacao list"
  controle_votacao :: "controle list"
  logs_sistema :: "log_entry list"
  logger :: "log_record list"

text \<open>
  What a request reads from outside: the clock in the timezone America/Sao\_Paulo
  (\<^verbatim>\<open>get_brazil_time()\<close>), SQLite's \<^verbatim>\<open>CURRENT_TIMESTAMP\<close>, and whether the store can be
  reached (when it cannot, opening the connection raises \<^verbatim>\<open>sqlite3.OperationalError\<close>).
\<close>

record env =
  brazil_time :: datetime
  current_timestamp :: string
  store_up :: bool

definition get_connection :: "env \<Rightarrow> state \<Rightarrow> exn + state" where
  "get_connection ev st = (if store_up ev then Inr st else Inl OperationalError)"

definition log_error :: "string \<Rightarrow> exn \<Rightarrow> state \<Rightarrow> state" where
  "log_error msg e st = st\<lparr>logger := logger st @ [LogError msg e]\<rparr>"

definition log_info :: "string \<Rightarrow> state \<Rightarrow> state" where
  "log_info msg st = st\<lparr>logger := logger st @ [LogInfo msg]\<rparr>"

section \<open>Vote eligibility\<close>

text \<open>
  \<^verbatim>\<open>SELECT ultimo_voto FROM controle_votacao WHERE dispositivo_id = ?\<close> and
  \<^verbatim>\<open>fetchone()\<close>: the first row whose key equals the parameter; NULL equals nothing.
\<close>

definition select_ultimo_voto :: "state \<Rightarrow> json \<Rightarrow> exn + string option" where
  "select_ultimo_voto st dispositivo_id =
     then_exn (bind_param dispositivo_id) (\<lambda>p.
       case text_affinity p of
         None \<Rightarrow> Inr None
       | Some k \<Rightarrow>
           Inr (map_option c_ultimo_voto
                  (find (\<lambda>r. c_dispositivo_id r = Some k) (controle_votacao st))))"

text \<open>The body of the \<^verbatim>\<open>try\<close> block of \<^verbatim>\<open>has_voted_today\<close>.\<close>

definition has_voted_today_try :: "env \<Rightarrow> state \<Rightarrow> json \<Rightarrow> exn + bool" where
  "has_voted_today_try ev st dispositivo_id =
     then_exn (get_connection ev st) (\<lambda>conn.
     then_exn (select_ultimo_voto conn dispositivo_id) (\<lambda>result.
       case result of
         None \<Rightarrow> Inr False
       | Some ts \<Rightarrow>
           (case fromisoformat (replace_Z ts) of
              None \<Rightarrow> Inl ValueError
            | Some ultimo_voto \<Rightarrow> Inr (is_same_day ultimo_voto (brazil_time ev)))))"

definition has_voted_today :: "env \<Rightarrow> state \<Rightarrow> json \<Rightarrow> bool \<times> state" where
  "has_voted_today ev st dispositivo_id =
     (case has_voted_today_try ev st dispositivo_id of
        Inr b \<Rightarrow> (b, st)
      | Inl e \<Rightarrow> (False, log_error ''Erro ao verificar voto do dia'' e st))"

section \<open>The handlers\<close>

text \<open>
  What a handler returns: the body it passes to \<^verbatim>\<open>jsonify\<close> and the HTTP status. An error
  body carries \<^verbatim>\<open>str(e)\<close> in the program; the model keeps the exception itself. The
  timestamps that the success bodies carry are left out.
\<close>

record evaluation =
  e_id :: "string option"
  e_dispositivoId :: string
  e_timestamp :: string
  e_avaliacaoGeral :: string
  e_setores :: json
  e_feedback :: string

record statistics =
  totalAvaliacoes :: nat
  avaliacoesHoje :: nat
  distribuicao :: "string \<rightharpoonup> nat"
  totalFeedbacks :: nat

datatype body =
    Evaluations "evaluation list" nat
  | Saved json
  | MissingField string
  | AlreadyVoted
  | VoteStatus string bool
  | TimerReset
  | Stats statistics
  | Failed exn

type_synonym response = "body \<times> nat"

subsection \<open>Listing the evaluations\<close>

text \<open>
  \<^verbatim>\<open>ORDER BY timestamp DESC\<close>: the rows in descending order of the text of their timestamp
  (bytewise comparison, a proper prefix first in ascending order); rows with equal
  timestamps stay in insertion order.
\<close>

fun insort_desc :: "avaliacao \<Rightarrow> avaliacao list \<Rightarrow> avaliacao list" where
  "insort_desc x [] = [x]"
| "insort_desc x (y # ys) =
     (if a_timestamp y \<le> a_timestamp x then x # y # ys else y # insort_desc x ys)"

definition order_by_timestamp_desc :: "avaliacao list \<Rightarrow> avaliacao list" where
  "order_by_timestamp_desc rows = foldr insort_desc rows []"

text \<open>One turn of the loop over the fetched rows.\<close>

definition row_evaluation :: "avaliacao \<Rightarrow> exn + evaluation" where
  "row_evaluation row =
     then_exn
       (case a_setores row of
          None \<Rightarrow> Inr (JObj [])
        | Some txt \<Rightarrow>
            (if txt = [] then Inr (JObj [])
             else case json_loads txt of None \<Rightarrow> Inl JSONDecodeError | Some v \<Rightarrow> Inr v))
       (\<lambda>setores. Inr
          \<lparr>e_id = a_id row,
           e_dispositivoId = a_dispositivo_id row,
           e_timestamp = a_timestamp row,
           e_avaliacaoGeral = a_avaliacao_geral row,
           e_setores = setores,
           e_feedback = (case a_feedback row of None \<Rightarrow> [] | Some f \<Rightarrow> f)\<rparr>)"

fun rows_evaluations :: "avaliacao list \<Rightarrow> exn + evaluation list" where
  "rows_evaluations [] = Inr []"
| "rows_evaluations (row # rows) =
     then_exn (row_evaluation row) (\<lambda>e.
     then_exn (rows_evaluations rows) (\<lambda>es. Inr (e # es)))"

definition get_evaluations_try :: "env \<Rightarrow> state \<Rightarrow> exn + evaluation list" where
  "get_evaluations_try ev st =
     then_exn (get_connection ev st) (\<lambda>conn.
       rows_evaluations (order_by_timestamp_desc (avaliacoes conn)))"

definition get_evaluations :: "env \<Rightarrow> state \<Rightarrow> response \<times> state" where
  "get_evaluations ev st =
     (case get_evaluations_try ev st of
        Inr evaluations \<Rightarrow> ((Evaluations evaluations (length evaluations), 200), st)
      | Inl e \<Rightarrow> ((Failed e, 500), log_error ''Erro ao obter avaliacoes'' e st))"

subsection \<open>Submitting an evaluation\<close>

text \<open>
  The Python operations on the request body: \<^verbatim>\<open>field in data\<close>, \<^verbatim>\<open>data[key]\<close> and
  \<^verbatim>\<open>data.get(key, default)\<close>. On a dictionary they look the key up; \<^verbatim>\<open>in\<close> also works on
  a list (an element equal to the field) and on a string (a substring); everything else
  raises.
\<close>

fun py_contains :: "json \<Rightarrow> string \<Rightarrow> exn + bool" where
  "py_contains (JObj kvs) field = Inr (map_of kvs field \<noteq> None)"
| "py_contains (JArr xs) field = Inr (JStr field \<in> set xs)"
| "py_contains (JStr s) field = Inr (sublist field s)"
| "py_contains _ field = Inl TypeError"

fun py_getitem :: "json \<Rightarrow> string \<Rightarrow> exn + json" where
  "py_getitem (JObj kvs) key = (case map_of kvs key of None \<Rightarrow> Inl KeyError | Some v \<Rightarrow> Inr v)"
| "py_getitem _ key = Inl TypeError"

fun py_get :: "json \<Rightarrow> string \<Rightarrow> json \<Rightarrow> exn + json" where
  "py_get (JObj kvs) key dflt = Inr (case map_of kvs key of None \<Rightarrow> dflt | Some v \<Rightarrow> v)"
| "py_get _ key dflt = Inl AttributeError"

definition required_fields :: "string list" where
  "required_fields = [''id'', ''dispositivoId'', ''timestamp'', ''avaliacaoGeral'']"

text \<open>The validation loop: the first required field that is not in the body, if any.\<close>

fun missing_field :: "json \<Rightarrow> string list \<Rightarrow> exn + string option" where
  "missing_field data [] = Inr None"
| "missing_field data (field # others) =
     then_exn (py_contains data field) (\<lambda>present.
       if \<not> present then Inr (Some field) else missing_field data others)"

text \<open>
  \<^verbatim>\<open>INSERT INTO avaliacoes\<close>: the \<^verbatim>\<open>NOT NULL\<close> columns refuse NULL and the primary key
  refuses an \<^verbatim>\<open>id\<close> that a row already has; both raise \<^verbatim>\<open>sqlite3.IntegrityError\<close>.
\<close>

definition insert_avaliacao ::
  "env \<Rightarrow> string option \<Rightarrow> string option \<Rightarrow> string option \<Rightarrow> string option \<Rightarrow>
   string option \<Rightarrow> string option \<Rightarrow> state \<Rightarrow> exn + state" where
  "insert_avaliacao ev vid vdisp vts vav vset vfb st =
     (case (vdisp, vts, vav) of
        (Some disp, Some ts, Some av) \<Rightarrow>
          (if vid \<noteq> None \<and> vid \<in> set (map a_id (avaliacoes st)) then Inl IntegrityError
           else Inr (st\<lparr>avaliacoes := avaliacoes st @
                   [\<lparr>a_id = vid, a_dispositivo_id = disp, a_timestamp = ts,
                     a_avaliacao_geral = av, a_setores = vset, a_feedback = vfb,
                     a_created_at = current_timestamp ev\<rparr>]\<rparr>))
      | _ \<Rightarrow> Inl IntegrityError)"

text \<open>
  \<^verbatim>\<open>INSERT OR REPLACE INTO controle_votacao\<close>: a row with the same key is deleted first.
\<close>

definition replace_controle ::
  "env \<Rightarrow> string option \<Rightarrow> string option \<Rightarrow> string \<Rightarrow> state \<Rightarrow> exn + state" where
  "replace_controle ev vdisp vts updated st =
     (case vts of
        None \<Rightarrow> Inl IntegrityError
      | Some ts \<Rightarrow>
          Inr (st\<lparr>controle_votacao :=
                 filter (\<lambda>r. vdisp = None \<or> c_dispositivo_id r \<noteq> vdisp) (controle_votacao st) @
                 [\<lparr>c_dispositivo_id = vdisp, c_ultimo_voto = ts,
                   c_created_at = current_timestamp ev, c_updated_at = updated\<rparr>]\<rparr>))"

text \<open>
  The \<^verbatim>\<open>with\<close> block of \<^verbatim>\<open>submit_evaluation\<close>: the two statements and the commit. An
  exception leaves the block before the commit, and closing the connection rolls back:
  the result is then the exception alone.
\<close>

definition save_evaluation :: "env \<Rightarrow> state \<Rightarrow> json \<Rightarrow> json \<Rightarrow> exn + state" where
  "save_evaluation ev st data dispositivo_id =
     then_exn (get_connection ev st) (\<lambda>conn.
     then_exn (py_getitem data ''id'') (\<lambda>d_id.
     then_exn (py_getitem data ''dispositivoId'') (\<lambda>d_disp.
     then_exn (py_getitem data ''timestamp'') (\<lambda>d_ts.
     then_exn (py_getitem data ''avaliacaoGeral'') (\<lambda>d_av.
     then_exn (py_get data ''setores'' (JObj [])) (\<lambda>d_set.
     then_exn (py_get data ''feedback'' (JStr [])) (\<lambda>d_fb.
     then_exn (bind_param d_id) (\<lambda>p_id.
     then_exn (bind_param d_disp) (\<lambda>p_disp.
     then_exn (bind_param d_ts) (\<lambda>p_ts.
     then_exn (bind_param d_av) (\<lambda>p_av.
     then_exn (bind_param (JStr (json_dumps d_set))) (\<lambda>p_set.
     then_exn (bind_param d_fb) (\<lambda>p_fb.
     then_exn (insert_avaliacao ev (text_affinity p_id) (text_affinity p_disp)
                 (text_affinity p_ts) (text_affinity p_av) (text_affinity p_set)
                 (text_affinity p_fb) conn) (\<lambda>conn1.
     then_exn (bind_param dispositivo_id) (\<lambda>q_disp.
     then_exn (bind_param d_ts) (\<lambda>q_ts.
       replace_controle ev (text_affinity q_disp) (text_affinity q_ts)
         (isoformat (brazil_time ev)) conn1))))))))))))))))"

text \<open>\<^verbatim>\<open>log_action\<close>: a row of \<^verbatim>\<open>logs_sistema\<close>, or a line of the logger when the store fails.\<close>

definition log_action :: "env \<Rightarrow> string \<Rightarrow> fpart list \<Rightarrow> state \<Rightarrow> state" where
  "log_action ev acao detalhes st =
     (case get_connection ev st of
        Inl e \<Rightarrow> log_error ''Erro ao registrar log'' e st
      | Inr conn \<Rightarrow>
          conn\<lparr>logs_sistema := logs_sistema conn @
            [\<lparr>l_acao = acao, l_detalhes = detalhes,
              l_timestamp = isoformat (brazil_time ev)\<rparr>]\<rparr>)"

definition submit_failed :: "exn \<Rightarrow> state \<Rightarrow> response \<times> state" where
  "submit_failed e st = ((Failed e, 500), log_error ''Erro ao salvar avaliacao'' e st)"

definition submit_evaluation :: "env \<Rightarrow> state \<Rightarrow> json \<Rightarrow> response \<times> state" where
  "submit_evaluation ev st data =
     (case missing_field data required_fields of
        Inl e \<Rightarrow> submit_failed e st
      | Inr (Some field) \<Rightarrow> ((MissingField field, 400), st)
      | Inr None \<Rightarrow>
          (case py_getitem data ''dispositivoId'' of
             Inl e \<Rightarrow> submit_failed e st
           | Inr dispositivo_id \<Rightarrow>
               (case has_voted_today ev st dispositivo_id of
                  (True, st1) \<Rightarrow> ((AlreadyVoted, 409), st1)
                | (False, st1) \<Rightarrow>
                    (case save_evaluation ev st1 data dispositivo_id of
                       Inl e \<Rightarrow> submit_failed e st1
                     | Inr st2 \<Rightarrow>
                         (case (py_getitem data ''avaliacaoGeral'', py_getitem data ''id'') of
                            (Inr av, Inr d_id) \<Rightarrow>
                              ((Saved d_id, 200),
                               log_info ''Avaliacao salva''
                                 (log_action ev ''AVALIACAO_ENVIADA''
                                    [Lit ''Dispositivo: '', Val dispositivo_id,
                                     Lit '', Avaliacao: '', Val av] st2))
                          | (Inl e, _) \<Rightarrow> submit_failed e st2
                          | (_, Inl e) \<Rightarrow> submit_failed e st2)))))"

subsection \<open>Checking a vote, resetting the timer, statistics\<close>

definition check_vote :: "env \<Rightarrow> state \<Rightarrow> string \<Rightarrow> response \<times> state" where
  "check_vote ev st dispositivo_id =
     (case has_voted_today ev st (JStr dispositivo_id) of
        (has_voted, st1) \<Rightarrow> ((VoteStatus dispositivo_id has_voted, 200), st1))"

definition reset_timer :: "env \<Rightarrow> state \<Rightarrow> response \<times> state" where
  "reset_timer ev st =
     (case get_connection ev st of
        Inl e \<Rightarrow> ((Failed e, 500), log_error ''Erro ao resetar timer'' e st)
      | Inr conn \<Rightarrow>
          ((TimerReset, 200),
           log_info ''Timer de votacao resetado''
             (log_action ev ''TIMER_RESETADO'' [Lit ''Timer de votacao resetado manualmente'']
                (conn\<lparr>controle_votacao := []\<rparr>))))"

text \<open>
  The four queries of \<^verbatim>\<open>get_statistics\<close>. SQLite's \<^verbatim>\<open>DATE\<close> function is a parameter,
  \<open>sql_date\<close> (\<open>None\<close> is NULL). The dictionary of the distribution has one entry for each
  group of \<^verbatim>\<open>GROUP BY avaliacao_geral\<close>.
\<close>

definition group_by_count :: "string list \<Rightarrow> (string \<times> nat) list" where
  "group_by_count labels = map (\<lambda>k. (k, count_list labels k)) (remdups labels)"

definition get_statistics ::
  "(string \<Rightarrow> string option) \<Rightarrow> env \<Rightarrow> state \<Rightarrow> response \<times> state" where
  "get_statistics sql_date ev st =
     (case get_connection ev st of
        Inl e \<Rightarrow> ((Failed e, 500), log_error ''Erro ao obter estatisticas'' e st)
      | Inr conn \<Rightarrow>
          (let total_avaliacoes = length (avaliacoes conn);
               hoje = date_isoformat (date_of (brazil_time ev));
               avaliacoes_hoje =
                 length (filter (\<lambda>r. sql_date (a_timestamp r) = Some hoje) (avaliacoes conn));
               distribuicao = map_of (group_by_count (map a_avaliacao_geral (avaliacoes conn)));
               total_feedbacks =
                 length (filter (\<lambda>r. a_feedback r \<noteq> None \<and> a_feedback r \<noteq> Some [])
                           (avaliacoes conn))
           in ((Stats \<lparr>totalAvaliacoes = total_avaliacoes, avaliacoesHoje = avaliacoes_hoje,
                        distribuicao = distribuicao, totalFeedbacks = total_feedbacks\<rparr>, 200),
               st)))"

section \<open>The eligibility rule in the words of the specification\<close>

text \<open>
  The specification compares the calendar date of the stored instant \<^emph>\<open>in the fixed local
  timezone\<close> with the calendar date of the clock in the same timezone. The definitions of
  this section follow those words, not the program. The number of the local day of an
  instant is the ordinal of its civil date (\<^verbatim>\<open>date.toordinal()\<close>: 1 January of year 1 is
  day 1), moved by the time of day, the offset the instant was written with and the offset
  of the zone, all in microseconds; two instants are on the same calendar date of the zone
  exactly when these numbers are equal. America/Sao\_Paulo has had the fixed offset -03:00
  since 2019. An instant written without an offset has no local day.
\<close>

definition days_before_year :: "nat \<Rightarrow> nat" where
  "days_before_year y = (y - 1) * 365 + (y - 1) div 4 - (y - 1) div 100 + (y - 1) div 400"

definition days_before_month :: "nat \<Rightarrow> nat \<Rightarrow> nat" where
  "days_before_month y m = sum_list (map (days_in_month y) [1..<m])"

definition toordinal :: "date \<Rightarrow> nat" where
  "toordinal d = (case d of (y, m, dd) \<Rightarrow> days_before_year y + days_before_month y m + dd)"

definition spec_local_day :: "int \<Rightarrow> datetime \<Rightarrow> int option" where
  "spec_local_day zone d =
     (case utcoffset d of
        None \<Rightarrow> None
      | Some off \<Rightarrow>
          Some ((int (toordinal (date_of d)) * 86400000000 +
                 int (((hour d * 60 + minute d) * 60 + second d) * 1000000 + microsecond d) -
                 off + zone) div 86400000000))"

definition sao_paulo :: int where
  "sao_paulo = - 10800000000"

definition spec_has_voted_today :: "int \<Rightarrow> env \<Rightarrow> state \<Rightarrow> string \<Rightarrow> bool option" where
  "spec_has_voted_today zone ev st d =
     (case find (\<lambda>r. c_dispositivo_id r = Some d) (controle_votacao st) of
        None \<Rightarrow> Some False
      | Some r \<Rightarrow>
          (case fromisoformat (replace_Z (c_ultimo_voto r)) of
             None \<Rightarrow> None
           | Some last_vote \<Rightarrow>
               (case (spec_local_day zone last_vote, spec_local_day zone (brazil_time ev)) of
                  (Some a, Some b) \<Rightarrow> Some (a = b)
                | _ \<Rightarrow> None)))"

section \<open>Example states\<close>

text \<open>
  A tablet that voted on 1 January 2024 at 22:00 in Sao Paulo, its browser sending the
  instant in UTC (\<^verbatim>\<open>new Date().toISOString()\<close>), and the server clock half an hour later.
\<close>

definition evening :: datetime where
  "evening = \<lparr>year = 2024, month = 1, day = 1, hour = 22, minute = 30, second = 0,
              microsecond = 0, utcoffset = Some (- 10800000000)\<rparr>"

definition env_up :: env where
  "env_up = \<lparr>brazil_time = evening, current_timestamp = ''2024-01-02 01:30:00'',
             store_up = True\<rparr>"

definition env_down :: env where
  "env_down = env_up\<lparr>store_up := False\<rparr>"

definition row_tablet1 :: avaliacao where
  "row_tablet1 =
     \<lparr>a_id = Some ''ev-1'', a_dispositivo_id = ''tablet-1'',
      a_timestamp = ''2024-01-02T01:00:00.000Z'', a_avaliacao_geral = ''otimo'',
      a_setores = Some ''{}'', a_feedback = Some [], a_created_at = ''2024-01-02 01:00:00''\<rparr>"

definition row_tablet3 :: avaliacao where
  "row_tablet3 =
     \<lparr>a_id = Some ''ev-0'', a_dispositivo_id = ''tablet-3'',
      a_timestamp = ''2024-01-01T09:15:00-03:00'', a_avaliacao_geral = ''otimo'',
      a_setores = Some (json_dumps (JObj [(''forno'', JInt 5)])),
      a_feedback = Some ''Equipe atenciosa'', a_created_at = ''2024-01-01 12:15:00''\<rparr>"

definition row_tablet4 :: avaliacao where
  "row_tablet4 =
     \<lparr>a_id = Some ''ev-9'', a_dispositivo_id = ''tablet-4'',
      a_timestamp = ''2023-12-31T17:40:00-03:00'', a_avaliacao_geral = ''regular'',
      a_setores = None, a_feedback = None, a_created_at = ''2023-12-31 20:40:00''\<rparr>"

definition vote_tablet1 :: controle where
  "vote_tablet1 =
     \<lparr>c_dispositivo_id = Some ''tablet-1'', c_ultimo_voto = ''2024-01-02T01:00:00.000Z'',
      c_created_at = ''2024-01-02 01:00:00'',
      c_updated_at = ''2024-01-01T22:00:00.000500-03:00''\<rparr>"

definition vote_tablet3 :: controle where
  "vote_tablet3 =
     \<lparr>c_dispositivo_id = Some ''tablet-3'', c_ultimo_voto = ''2024-01-01T09:15:00-03:00'',
      c_created_at = ''2024-01-01 12:15:00'',
      c_updated_at = ''2024-01-01T09:15:01.250000-03:00''\<rparr>"

definition state_evening :: state where
  "state_evening =
     \<lparr>avaliacoes = [row_tablet4, row_tablet3, row_tablet1],
      controle_votacao = [vote_tablet3, vote_tablet1], logs_sistema = [], logger = []\<rparr>"

text \<open>A ledger row whose timestamp is not an ISO date.\<close>

definition state_malformed :: state where
  "state_malformed =
     state_evening\<lparr>controle_votacao := [vote_tablet1\<lparr>c_ultimo_voto := ''ontem''\<rparr>]\<rparr>"

text \<open>Request bodies.\<close>

definition payload :: "string \<Rightarrow> string \<Rightarrow> (string \<times> json) list" where
  "payload i dev =
     [(''id'', JStr i), (''dispositivoId'', JStr dev),
      (''timestamp'', JStr ''2024-01-01T22:30:00-03:00''), (''avaliacaoGeral'', JStr ''bom'')]"

definition sectors :: json where
  "sectors = JObj [(''forno'', JInt 5), (''moagem'', JInt 3)]"

definition payload_full :: "(string \<times> json) list" where
  "payload_full =
     payload ''ev-2'' ''tablet-2'' @ [(''setores'', sectors), (''feedback'', JStr ''Muito bom'')]"

definition payload_no_timestamp :: "(string \<times> json) list" where
  "payload_no_timestamp =
     [(''id'', JStr ''ev-2''), (''dispositivoId'', JStr ''tablet-2''),
      (''avaliacaoGeral'', JStr ''bom'')]"

text \<open>
  The same evening, from the first vote on: the ledger before \<open>tablet-1\<close> votes, the clock
  at 22:00, and the two request bodies that the tablet sends at 22:00 and at 22:30, each
  with the instant in UTC as its timestamp.
\<close>

definition env_2200 :: env where
  "env_2200 = \<lparr>brazil_time = evening\<lparr>minute := 0\<rparr>, current_timestamp = ''2024-01-02 01:00:00'',
               store_up = True\<rparr>"

definition state_before :: state where
  "state_before =
     \<lparr>avaliacoes = [row_tablet4, row_tablet3], controle_votacao = [vote_tablet3],
      logs_sistema = [], logger = []\<rparr>"

definition first_vote :: "(string \<times> json) list" where
  "first_vote =
     [(''id'', JStr ''ev-1''), (''dispositivoId'', JStr ''tablet-1''),
      (''timestamp'', JStr ''2024-01-02T01:00:00.000Z''), (''avaliacaoGeral'', JStr ''otimo'')]"

definition second_vote :: "(string \<times> json) list" where
  "second_vote =
     [(''id'', JStr ''ev-2''), (''dispositivoId'', JStr ''tablet-1''),
      (''timestamp'', JStr ''2024-01-02T01:30:00.000Z''), (''avaliacaoGeral'', JStr ''bom'')]"

definition first_vote_instant :: datetime where
  "first_vote_instant =
     \<lparr>year = 2024, month = 1, day = 2, hour = 1, minute = 0, second = 0,
      microsecond = 0, utcoffset = Some 0\<rparr>"

section \<open>Basic facts\<close>

lemma then_exn_simps [simp]:
  "then_exn (Inl e) f = Inl e" "then_exn (Inr x) f = f x"
  by (simp_all add: then_exn_def)

lemma has_voted_today_True_state:
  "has_voted_today ev st d = (True, st') \<Longrightarrow> st' = st"
  by (auto simp: has_voted_today_def split: sum.splits)

lemma has_voted_today_tables:
  "avaliacoes (snd (has_voted_today ev st d)) = avaliacoes st"
  "controle_votacao (snd (has_voted_today ev st d)) = controle_votacao st"
  "logs_sistema (snd (has_voted_today ev st d)) = logs_sistema st"
  by (auto simp: has_voted_today_def log_error_def split: sum.splits)

lemma has_voted_today_no_row:
  assumes "\<forall>r \<in> set (controle_votacao st). c_dispositivo_id r \<noteq> Some d"
  shows "fst (has_voted_today ev st (JStr d)) = False"
    and "store_up ev \<Longrightarrow> has_voted_today ev st (JStr d) = (False, st)"
proof -
  have "find (\<lambda>r. c_dispositivo_id r = Some d) (controle_votacao st) = None"
    using assms by (simp add: find_None_iff)
  then show "fst (has_voted_today ev st (JStr d)) = False"
    and "store_up ev \<Longrightarrow> has_voted_today ev st (JStr d) = (False, st)"
    by (simp_all add: has_voted_today_def has_voted_today_try_def get_connection_def
        select_ultimo_voto_def)
qed

lemma fromisoformat_ontem: "fromisoformat (replace_Z ''ontem'') = None"
  by (simp add: fromisoformat_def replace_Z_def parse_isoformat_date_def)

section \<open>Vote eligibility: unknown devices and failures\<close>

text \<open>
  C9. For a device identifier that no row of the vote-control table has,
  \<open>has_voted_today\<close> returns false; no exception leaves it (it is a total function whose
  result is a boolean), and when the store is reachable nothing is logged either.
\<close>

theorem has_voted_today_unknown_device:
  assumes "\<forall>r \<in> set (controle_votacao st). c_dispositivo_id r \<noteq> Some d"
  shows "fst (has_voted_today ev st (JStr d)) = False \<and>
         (store_up ev \<longrightarrow> has_voted_today ev st (JStr d) = (False, st))"
  using has_voted_today_no_row [OF assms] by simp

theorem has_voted_today_unknown_device_witness:
  "Some ''tablet-2'' \<notin> c_dispositivo_id ` set (controle_votacao state_evening) \<and>
   has_voted_today env_up state_evening (JStr ''tablet-2'') = (False, state_evening)"
proof -
  have h: "\<forall>r \<in> set (controle_votacao state_evening). c_dispositivo_id r \<noteq> Some ''tablet-2''"
    by (simp add: state_evening_def vote_tablet1_def vote_tablet3_def)
  have "store_up env_up" by (simp add: env_up_def)
  with has_voted_today_unknown_device [OF h, of env_up] h show ?thesis by auto
qed

text \<open>
  C7. When the store cannot be read, and when the stored timestamp of the device cannot be
  parsed, \<open>has_voted_today\<close> returns false, and the exception goes to the logger: the
  state is the one before with one error record more.
\<close>

theorem has_voted_today_failure_policy:
  assumes "\<not> store_up ev \<or>
     (\<exists>r. find (\<lambda>r. c_dispositivo_id r = Some d) (controle_votacao st) = Some r \<and>
          fromisoformat (replace_Z (c_ultimo_voto r)) = None)"
  shows "\<exists>e. has_voted_today ev st (JStr d) =
           (False, log_error ''Erro ao verificar voto do dia'' e st)"
  using assms
  by (auto simp: has_voted_today_def has_voted_today_try_def get_connection_def
      select_ultimo_voto_def)

theorem has_voted_today_failure_policy_witness:
  "store_up env_up \<and>
   find (\<lambda>r. c_dispositivo_id r = Some ''tablet-1'') (controle_votacao state_malformed) =
     Some (vote_tablet1\<lparr>c_ultimo_voto := ''ontem''\<rparr>) \<and>
   fromisoformat (replace_Z ''ontem'') = None \<and>
   (\<exists>e. has_voted_today env_up state_malformed (JStr ''tablet-1'') =
      (False, log_error ''Erro ao verificar voto do dia'' e state_malformed)) \<and>
   \<not> store_up env_down \<and>
   (\<exists>e. has_voted_today env_down state_evening (JStr ''tablet-1'') =
      (False, log_error ''Erro ao verificar voto do dia'' e state_evening))"
proof -
  have f: "find (\<lambda>r. c_dispositivo_id r = Some ''tablet-1'') (controle_votacao state_malformed) =
     Some (vote_tablet1\<lparr>c_ultimo_voto := ''ontem''\<rparr>)"
    by (simp add: state_malformed_def state_evening_def vote_tablet1_def)
  have h1: "\<not> store_up env_up \<or>
     (\<exists>r. find (\<lambda>r. c_dispositivo_id r = Some ''tablet-1'') (controle_votacao state_malformed) = Some r \<and>
          fromisoformat (replace_Z (c_ultimo_voto r)) = None)"
    using f fromisoformat_ontem by simp
  have d: "\<not> store_up env_down" by (simp add: env_down_def)
  then have h2: "\<not> store_up env_down \<or>
     (\<exists>r. find (\<lambda>r. c_dispositivo_id r = Some ''tablet-1'') (controle_votacao state_evening) = Some r \<and>
          fromisoformat (replace_Z (c_ultimo_voto r)) = None)"
    by simp
  have u: "store_up env_up" by (simp add: env_up_def)
  show ?thesis
    using has_voted_today_failure_policy [OF h1] has_voted_today_failure_policy [OF h2]
      f fromisoformat_ontem d u by simp
qed

section \<open>Submission: validation, conflict, duplicate identifiers\<close>

lemma missing_field_obj:
  "missing_field (JObj kvs) fs = Inr (find (\<lambda>f. map_of kvs f = None) fs)"
  by (induction fs) auto

lemma log_error_tables [simp]:
  "avaliacoes (log_error m e st) = avaliacoes st"
  "controle_votacao (log_error m e st) = controle_votacao st"
  "logs_sistema (log_error m e st) = logs_sistema st"
  by (simp_all add: log_error_def)

text \<open>
  C3. A request body that is a JSON object without one of the four required fields is
  answered 400 with the name of a missing field, and the state is the one before: no row
  is written to any table.
\<close>

theorem submit_missing_field:
  assumes "f \<in> set required_fields" and "map_of kvs f = None"
  shows "\<exists>g. g \<in> set required_fields \<and> map_of kvs g = None \<and>
           submit_evaluation ev st (JObj kvs) = ((MissingField g, 400), st)"
proof -
  from assms obtain g where g: "find (\<lambda>f. map_of kvs f = None) required_fields = Some g"
    by (cases "find (\<lambda>f. map_of kvs f = None) required_fields") (auto simp: find_None_iff)
  then have "g \<in> set required_fields" "map_of kvs g = None"
    by (auto simp: find_Some_iff)
  moreover have "submit_evaluation ev st (JObj kvs) = ((MissingField g, 400), st)"
    by (simp add: submit_evaluation_def missing_field_obj g)
  ultimately show ?thesis by blast
qed

theorem submit_missing_field_witness:
  "''timestamp'' \<in> set required_fields \<and> map_of payload_no_timestamp ''timestamp'' = None \<and>
   (\<exists>g. g \<in> set required_fields \<and> map_of payload_no_timestamp g = None \<and>
      submit_evaluation env_up state_evening (JObj payload_no_timestamp) =
        ((MissingField g, 400), state_evening))"
proof -
  have h1: "''timestamp'' \<in> set required_fields" by (simp add: required_fields_def)
  have h2: "map_of payload_no_timestamp ''timestamp'' = None"
    by (simp add: payload_no_timestamp_def)
  show ?thesis
    using submit_missing_field [OF h1 h2, of env_up state_evening] h1 h2 by simp
qed

text \<open>
  When \<open>has_voted_today\<close> answers true for the device of a request body with the four
  required fields, the answer is 409 and the state is the one before; the device
  \<open>tablet-3\<close> of the evening example is such a device.
\<close>

lemma submit_conflict:
  assumes "\<forall>f \<in> set required_fields. map_of kvs f \<noteq> None"
    and "map_of kvs ''dispositivoId'' = Some dev"
    and "fst (has_voted_today ev st dev)"
  shows "submit_evaluation ev st (JObj kvs) = ((AlreadyVoted, 409), st)"
proof -
  have "find (\<lambda>f. map_of kvs f = None) required_fields = None"
    using assms(1) by (simp add: find_None_iff)
  moreover obtain st1 where v: "has_voted_today ev st dev = (True, st1)"
    using assms(3) by (cases "has_voted_today ev st dev") auto
  moreover from v have "st1 = st" by (rule has_voted_today_True_state)
  ultimately show ?thesis
    using assms(2) by (simp add: submit_evaluation_def missing_field_obj)
qed

lemma has_voted_today_tablet3:
  "has_voted_today env_up state_evening (JStr ''tablet-3'') = (True, state_evening)"
  by (simp add: has_voted_today_def has_voted_today_try_def get_connection_def
      select_ultimo_voto_def env_up_def state_evening_def vote_tablet3_def vote_tablet1_def
      fromisoformat_def replace_Z_def parse_isoformat_date_def parse_isoformat_time_def
      parse_hh_mm_ss_ff_def all_digits_def is_digit_def read_nat_def digit_val_def
      valid_datetime_def days_in_month_def is_leap_def is_same_day_def date_of_def evening_def)

lemma submit_conflict_evening:
  "list_all (\<lambda>f. map_of (payload ''ev-7'' ''tablet-3'') f \<noteq> None) required_fields \<and>
   fst (has_voted_today env_up state_evening (JStr ''tablet-3'')) \<and>
   submit_evaluation env_up state_evening (JObj (payload ''ev-7'' ''tablet-3'')) =
     ((AlreadyVoted, 409), state_evening)"
proof -
  have h1: "\<forall>f \<in> set required_fields. map_of (payload ''ev-7'' ''tablet-3'') f \<noteq> None"
    by (simp add: required_fields_def payload_def)
  have h2: "map_of (payload ''ev-7'' ''tablet-3'') ''dispositivoId'' = Some (JStr ''tablet-3'')"
    by (simp add: payload_def)
  have h3: "fst (has_voted_today env_up state_evening (JStr ''tablet-3''))"
    by (simp add: has_voted_today_tablet3)
  show ?thesis
    using submit_conflict [OF h1 h2 h3] h1 h3 by (simp add: list_all_iff)
qed


lemma then_exn_Inr_iff:
  "then_exn r f = Inr y \<longleftrightarrow> (\<exists>x. r = Inr x \<and> f x = Inr y)"
  by (cases r) auto




section \<open>Resetting the voting window\<close>

lemma select_ultimo_voto_empty_ledger:
  "controle_votacao st = [] \<Longrightarrow> select_ultimo_voto st d \<noteq> Inr (Some ts)"
  by (cases "bind_param d") (simp_all add: select_ultimo_voto_def split: option.splits)

lemma has_voted_today_empty_ledger:
  assumes "controle_votacao st = []"
  shows "fst (has_voted_today ev st d) = False"
proof (cases "has_voted_today_try ev st d")
  case (Inl e)
  then show ?thesis by (simp add: has_voted_today_def)
next
  case (Inr b)
  then obtain result where r: "select_ultimo_voto st d = Inr result"
    and b: "(case result of None \<Rightarrow> Inr False
             | Some ts \<Rightarrow> (case fromisoformat (replace_Z ts) of None \<Rightarrow> Inl ValueError
                 | Some ultimo_voto \<Rightarrow> Inr (is_same_day ultimo_voto (brazil_time ev)))) = Inr b"
    by (auto simp: has_voted_today_try_def then_exn_Inr_iff get_connection_def split: if_splits)
  from r select_ultimo_voto_empty_ledger [OF assms] have "result = None"
    by (cases result) auto
  with b have "b = False" by simp
  with Inr show ?thesis by (simp add: has_voted_today_def)
qed

lemma get_evaluations_reads_avaliacoes:
  assumes "avaliacoes st' = avaliacoes st"
  shows "fst (get_evaluations ev st') = fst (get_evaluations ev st)"
proof -
  have "get_evaluations_try ev st' = get_evaluations_try ev st"
    using assms by (cases "store_up ev") (simp_all add: get_evaluations_try_def get_connection_def)
  then show ?thesis
    by (cases "get_evaluations_try ev st") (simp_all add: get_evaluations_def)
qed

text \<open>
  C6. With the store reachable, \<open>reset_timer\<close> answers 200 and leaves a state whose
  vote-control table is empty and whose evaluations table is the one before. In that
  state \<open>has_voted_today\<close> is false for every device and at every time, and the list
  operation answers what it answered before.
\<close>

theorem reset_timer_clears_ledger:
  assumes "store_up ev"
  shows "\<exists>st'. reset_timer ev st = ((TimerReset, 200), st') \<and>
           controle_votacao st' = [] \<and> avaliacoes st' = avaliacoes st \<and>
           (\<forall>ev' d. fst (has_voted_today ev' st' d) = False) \<and>
           (\<forall>ev'. fst (get_evaluations ev' st') = fst (get_evaluations ev' st))"
proof -
  let ?st' = "log_info ''Timer de votacao resetado''
     (log_action ev ''TIMER_RESETADO'' [Lit ''Timer de votacao resetado manualmente'']
        (st\<lparr>controle_votacao := []\<rparr>))"
  have r: "reset_timer ev st = ((TimerReset, 200), ?st')"
    using assms by (simp add: reset_timer_def get_connection_def)
  have c: "controle_votacao ?st' = []"
    using assms by (simp add: log_info_def log_action_def get_connection_def)
  have a: "avaliacoes ?st' = avaliacoes st"
    using assms by (simp add: log_info_def log_action_def get_connection_def)
  have v: "\<forall>ev' d. fst (has_voted_today ev' ?st' d) = False"
    using has_voted_today_empty_ledger [OF c] by simp
  have l: "\<forall>ev'. fst (get_evaluations ev' ?st') = fst (get_evaluations ev' st)"
    using get_evaluations_reads_avaliacoes [OF a] by simp
  show ?thesis
    by (rule exI [of _ ?st']) (intro conjI r c a v l)
qed

theorem reset_timer_clears_ledger_witness:
  "store_up env_up \<and> fst (has_voted_today env_up state_evening (JStr ''tablet-3'')) \<and>
   (\<exists>st'. reset_timer env_up state_evening = ((TimerReset, 200), st') \<and>
      controle_votacao st' = [] \<and> avaliacoes st' = avaliacoes state_evening \<and>
      fst (has_voted_today env_up st' (JStr ''tablet-3'')) = False \<and>
      fst (get_evaluations env_up st') = fst (get_evaluations env_up state_evening))"
proof -
  have h: "store_up env_up" by (simp add: env_up_def)
  from reset_timer_clears_ledger [OF h, of state_evening]
  obtain st' where x: "reset_timer env_up state_evening = ((TimerReset, 200), st') \<and>
      controle_votacao st' = [] \<and> avaliacoes st' = avaliacoes state_evening \<and>
      (\<forall>ev' d. fst (has_voted_today ev' st' d) = False) \<and>
      (\<forall>ev'. fst (get_evaluations ev' st') = fst (get_evaluations ev' state_evening))" ..
  have y: "reset_timer env_up state_evening = ((TimerReset, 200), st') \<and>
      controle_votacao st' = [] \<and> avaliacoes st' = avaliacoes state_evening \<and>
      fst (has_voted_today env_up st' (JStr ''tablet-3'')) = False \<and>
      fst (get_evaluations env_up st') = fst (get_evaluations env_up state_evening)"
    using x by simp
  have t: "fst (has_voted_today env_up state_evening (JStr ''tablet-3''))"
    by (simp add: has_voted_today_tablet3)
  show ?thesis
    by (intro conjI h t exI [of _ st'] y)
qed

section \<open>Statistics\<close>

lemma map_of_group_by_count:
  "map_of (group_by_count labels) k =
     (if k \<in> set labels then Some (count_list labels k) else None)"
  by (simp add: group_by_count_def map_of_map_restrict restrict_map_def)

text \<open>
  C4. With the store reachable, \<open>get_statistics\<close> answers 200 with: the number of rows
  of the evaluations table; a dictionary that has exactly the labels that occur in the
  table as its keys (no entry for a label that does not occur) and the number of rows
  with the label as the value; and the number of rows whose feedback is neither NULL nor
  the empty string.
\<close>

theorem get_statistics_counts:
  assumes "store_up ev"
  shows "\<exists>s. get_statistics sql_date ev st = ((Stats s, 200), st) \<and>
           totalAvaliacoes s = length (avaliacoes st) \<and>
           (\<forall>k. distribuicao s k =
              (if k \<in> set (map a_avaliacao_geral (avaliacoes st))
               then Some (count_list (map a_avaliacao_geral (avaliacoes st)) k) else None)) \<and>
           totalFeedbacks s =
             length (filter (\<lambda>r. a_feedback r \<noteq> None \<and> a_feedback r \<noteq> Some []) (avaliacoes st))"
  using assms
  by (simp add: get_statistics_def get_connection_def Let_def map_of_group_by_count)

theorem get_statistics_counts_witness:
  "store_up env_up \<and>
   map a_avaliacao_geral (avaliacoes state_evening) = [''regular'', ''otimo'', ''otimo''] \<and>
   (\<exists>s. get_statistics (\<lambda>ts. Some (take 10 ts)) env_up state_evening = ((Stats s, 200), state_evening) \<and>
      totalAvaliacoes s = 3 \<and>
      distribuicao s ''otimo'' = Some 2 \<and> distribuicao s ''regular'' = Some 1 \<and>
      distribuicao s ''ruim'' = None \<and> dom (distribuicao s) = {''otimo'', ''regular''} \<and>
      totalFeedbacks s = 1)"
proof -
  have h: "store_up env_up" by (simp add: env_up_def)
  have l: "map a_avaliacao_geral (avaliacoes state_evening) = [''regular'', ''otimo'', ''otimo'']"
    by (simp add: state_evening_def row_tablet1_def row_tablet3_def row_tablet4_def)
  have n: "length (avaliacoes state_evening) = 3"
    by (simp add: state_evening_def)
  have f: "length (filter (\<lambda>r. a_feedback r \<noteq> None \<and> a_feedback r \<noteq> Some [])
             (avaliacoes state_evening)) = 1"
    by (simp add: state_evening_def row_tablet1_def row_tablet3_def row_tablet4_def)
  from get_statistics_counts [OF h, of "\<lambda>ts. Some (take 10 ts)" state_evening]
  obtain s where s: "get_statistics (\<lambda>ts. Some (take 10 ts)) env_up state_evening = ((Stats s, 200), state_evening)"
    "totalAvaliacoes s = 3"
    "\<And>k. distribuicao s k =
       (if k \<in> set [''regular'', ''otimo'', ''otimo'']
        then Some (count_list [''regular'', ''otimo'', ''otimo''] k) else None)"
    "totalFeedbacks s = 1"
    unfolding l n f by blast
  have "dom (distribuicao s) = {''otimo'', ''regular''}"
    by (auto simp: dom_def s(3) split: if_splits)
  with s h l show ?thesis
    by (intro conjI exI [of _ s]) simp_all
qed

section \<open>JSON text: decoding what was printed\<close>

text \<open>
  \<^verbatim>\<open>json.loads(json.dumps(v))\<close> is \<open>v\<close>, for every value whose objects have distinct keys.
  The proof follows the printer: numerals, strings, then values by induction, with the
  counter of the decoder at least the length of the text.
\<close>

lemma of_char_digit_char: "d < 10 \<Longrightarrow> of_char (digit_char d) = (48 + d :: nat)"
  by (simp add: digit_char_def)

lemma is_digit_digit_char: "d < 10 \<Longrightarrow> is_digit (digit_char d)"
  by (simp add: is_digit_def less_eq_char_def of_char_digit_char)

lemma digit_val_digit_char: "d < 10 \<Longrightarrow> digit_val (digit_char d) = d"
  by (simp add: digit_val_def of_char_digit_char)

lemma char_eq_iff_nat: "c = d \<longleftrightarrow> (of_char c :: nat) = of_char d"
  by simp

lemma digit_char_zero: "d < 10 \<Longrightarrow> digit_char d = CHR ''0'' \<longleftrightarrow> d = 0"
  by (simp add: char_eq_iff_nat [of "digit_char d"] of_char_digit_char)

lemma show_nat_nonempty: "show_nat n \<noteq> []"
  by (subst show_nat.simps) simp

lemma show_nat_all_digits: "list_all is_digit (show_nat n)"
  by (induction n rule: show_nat.induct) (subst show_nat.simps, simp add: is_digit_digit_char)

lemma read_nat_snoc: "read_nat (xs @ [c]) = 10 * read_nat xs + digit_val c"
  by (simp add: read_nat_def)

lemma read_nat_show_nat: "read_nat (show_nat n) = n"
proof (induction n rule: show_nat.induct)
  case (1 n)
  show ?case
  proof (cases "n < 10")
    case True
    then show ?thesis
      by (subst show_nat.simps) (simp add: read_nat_def digit_val_digit_char)
  next
    case False
    with 1 show ?thesis
      by (subst show_nat.simps) (simp add: read_nat_snoc digit_val_digit_char)
  qed
qed

lemma hd_show_nat: "hd (show_nat n) = CHR ''0'' \<longleftrightarrow> n = 0"
proof (induction n rule: show_nat.induct)
  case (1 n)
  show ?case
  proof (cases "n < 10")
    case True
    then show ?thesis
      by (subst show_nat.simps) (simp add: digit_char_zero)
  next
    case False
    then have "n div 10 \<noteq> 0" by simp
    with 1 False show ?thesis
      by (subst show_nat.simps) (simp add: show_nat_nonempty)
  qed
qed

lemma tok_end_not_digit: "tok_end r \<Longrightarrow> takeWhile is_digit r = []"
  by (cases r) (auto simp: tok_end_def is_digit_def less_eq_char_def)

lemma tok_end_not_fraction: "tok_end r \<Longrightarrow> \<not> starts_fraction r"
  by (cases r) (auto simp: tok_end_def starts_fraction_def split: list.splits)

lemma takeWhile_digits_append:
  "list_all is_digit ds \<Longrightarrow> tok_end r \<Longrightarrow> takeWhile is_digit (ds @ r) = ds"
  by (induction ds) (simp_all add: tok_end_not_digit)

lemma parse_number_show_nat:
  assumes "tok_end r"
  shows "parse_number (show_nat n @ r) = Some (JInt (int n), r)"
proof -
  obtain d ds where s: "show_nat n = d # ds"
    using show_nat_nonempty [of n] by (cases "show_nat n") auto
  have dig: "is_digit d" "list_all is_digit ds"
    using show_nat_all_digits [of n] by (simp_all add: s)
  then have nm: "d \<noteq> CHR ''-''"
    by (auto simp: is_digit_def less_eq_char_def)
  show ?thesis
  proof (cases "n = 0")
    case True
    then have "show_nat n = ''0''" by (subst show_nat.simps) (simp add: digit_char_def char_eq_iff_nat)
    then show ?thesis
      using assms True
      by (simp add: parse_number_def is_digit_def less_eq_char_def tok_end_not_fraction read_nat_def digit_val_def)
  next
    case False
    then have "d \<noteq> CHR ''0''" using hd_show_nat [of n] by (simp add: s)
    moreover have "read_nat (d # ds) = n" using read_nat_show_nat [of n] by (simp add: s)
    ultimately show ?thesis
      using assms dig nm
      by (simp add: parse_number_def s takeWhile_digits_append tok_end_not_fraction)
  qed
qed

lemma parse_number_show_int:
  assumes "tok_end r"
  shows "parse_number (show_int i @ r) = Some (JInt i, r)"
proof (cases "i < 0")
  case False
  then show ?thesis
    using parse_number_show_nat [OF assms, of "nat i"] by (simp add: show_int_def)
next
  case True
  define n where "n = nat (- i)"
  have n: "n \<noteq> 0" "int n = - i" using True by (simp_all add: n_def)
  obtain d ds where s: "show_nat n = d # ds"
    using show_nat_nonempty [of n] by (cases "show_nat n") auto
  have dig: "is_digit d" "list_all is_digit ds"
    using show_nat_all_digits [of n] by (simp_all add: s)
  have "d \<noteq> CHR ''0''" using hd_show_nat [of n] n by (simp add: s)
  moreover have "read_nat (d # ds) = n" using read_nat_show_nat [of n] by (simp add: s)
  ultimately show ?thesis
    using assms dig n True
    by (simp add: parse_number_def show_int_def n_def [symmetric] s takeWhile_digits_append
        tok_end_not_fraction)
qed

lemma hex_digit_props:
  assumes "d < 16"
  shows "is_hex (hex_digit d)" and "hex_val (hex_digit d) = d"
proof -
  show "is_hex (hex_digit d)"
    using assms by (auto simp: hex_digit_def is_hex_def is_digit_def less_eq_char_def)
  show "hex_val (hex_digit d) = d"
    using assms by (auto simp: hex_digit_def hex_val_def is_digit_def less_eq_char_def)
qed

lemma scanstring_u:
  "scanstring (backslash # CHR ''u'' # CHR ''0'' # CHR ''0'' #
      hex_digit (of_char c div 16) # hex_digit (of_char c mod 16) # rest) =
   cons_result c (scanstring rest)"
proof -
  let ?a = "of_char c div 16 :: nat" and ?b = "of_char c mod 16 :: nat"
  have lt: "(of_char c :: nat) < 256" by (rule nat_of_char_less_256)
  then have a: "?a < 16" and b: "?b < 16" by presburger+
  have z: "is_hex CHR ''0''" "hex_val CHR ''0'' = 0"
    by (simp_all add: is_hex_def hex_val_def is_digit_def less_eq_char_def)
  have "read_hex [CHR ''0'', CHR ''0'', hex_digit ?a, hex_digit ?b] = 16 * ?a + ?b"
    by (simp add: read_hex_def z hex_digit_props [OF a] hex_digit_props [OF b])
  also have "\<dots> = of_char c" by simp
  finally have r: "read_hex [CHR ''0'', CHR ''0'', hex_digit ?a, hex_digit ?b] = of_char c" .
  show ?thesis
    using lt by (simp add: r z hex_digit_props [OF a] hex_digit_props [OF b] dquote_def backslash_def)
qed

lemma scanstring_escape:
  "scanstring (escape_char c @ rest) = cons_result c (scanstring rest)"
proof (cases "c = dquote \<or> c = backslash \<or> c = CHR 0x0A \<or> c = CHR 0x0D \<or> c = CHR 0x09 \<or>
    c = CHR 0x0C \<or> c = CHR 0x08")
  case True
  then show ?thesis
    by (auto simp: escape_char_def unescape_def dquote_def backslash_def)
next
  case False
  note nf = this
  show ?thesis
  proof (cases "CHR 0x20 \<le> c \<and> c \<le> CHR 0x7E")
    case True
    then have "\<not> c < CHR 0x20" by auto
    with nf True show ?thesis by (simp add: escape_char_def)
  next
    case False
    with nf show ?thesis
      by (auto simp add: escape_char_def scanstring_u simp del: scanstring.simps)
  qed
qed

lemma scanstring_encode:
  "scanstring (concat (map escape_char s) @ dquote # r) = Some (s, r)"
  by (induction s) (simp_all add: scanstring_escape cons_result_def)

lemma starts_value_append: "starts_value s \<Longrightarrow> starts_value (s @ r)"
  by (cases s) (simp_all add: starts_value_def)

lemma skip_ws_starts_value: "starts_value s \<Longrightarrow> skip_ws s = s"
  by (cases s) (simp_all add: starts_value_def skip_ws_def)

lemma is_digit_starts: "is_digit c \<Longrightarrow> starts_value (c # cs)"
  by (auto simp: starts_value_def is_digit_def is_ws_def less_eq_char_def)

lemma show_int_cases:
  obtains cs where "show_int i = CHR ''-'' # cs" | c cs where "show_int i = c # cs" "is_digit c"
proof (cases "i < 0")
  case True
  then show ?thesis using that(1) by (simp add: show_int_def)
next
  case False
  obtain d ds where s: "show_nat (nat i) = d # ds"
    using show_nat_nonempty [of "nat i"] by (cases "show_nat (nat i)") auto
  then have "is_digit d" using show_nat_all_digits [of "nat i"] by simp
  with s False show ?thesis using that(2) by (simp add: show_int_def)
qed

lemma starts_value_dumps: "starts_value (json_dumps v)"
proof (cases v)
  case (JInt i)
  show ?thesis
  proof (cases i rule: show_int_cases)
    case (1 cs)
    then show ?thesis using JInt by (simp add: starts_value_def is_ws_def)
  next
    case (2 c cs)
    then show ?thesis using JInt is_digit_starts by simp
  qed
qed (simp_all add: starts_value_def is_ws_def encode_basestring_def dquote_def)

lemma starts_value_items: "xs \<noteq> [] \<Longrightarrow> starts_value (dumps_items xs)"
  by (cases xs rule: dumps_items.cases) (simp_all add: starts_value_dumps starts_value_append)

lemma starts_value_pairs:
  "kvs \<noteq> [] \<Longrightarrow> \<exists>cs. dumps_pairs kvs = dquote # cs"
  by (cases kvs rule: dumps_pairs.cases) (simp_all add: encode_basestring_def)

lemma dict_of_distinct_aux:
  "distinct (map fst (acc @ kvs)) \<Longrightarrow>
   foldl (\<lambda>d kv. AList.update (fst kv) (snd kv) d) acc kvs = acc @ kvs"
proof (induction kvs arbitrary: acc)
  case Nil
  then show ?case by simp
next
  case (Cons kv kvs)
  have "fst kv \<notin> fst ` set acc" using Cons.prems by auto
  then have u: "AList.update (fst kv) (snd kv) acc = acc @ [kv]"
    by (induction acc) auto
  have "distinct (map fst ((acc @ [kv]) @ kvs))" using Cons.prems by simp
  from Cons.IH [OF this] u show ?case by simp
qed

lemma dict_of_distinct: "distinct (map fst kvs) \<Longrightarrow> dict_of kvs = kvs"
  using dict_of_distinct_aux [of "[]" kvs] by (simp add: dict_of_def)

lemma skip_ws_simps:
  "skip_ws (CHR '' '' # s) = skip_ws s"
  "skip_ws (CHR '','' # s) = CHR '','' # s"
  "skip_ws (CHR '']'' # s) = CHR '']'' # s"
  "skip_ws (CHR ''}'' # s) = CHR ''}'' # s"
  "skip_ws (CHR '':'' # s) = CHR '':'' # s"
  by (simp_all add: skip_ws_def is_ws_def)

lemma tok_end_simps:
  "tok_end (CHR '','' # s)" "tok_end (CHR '']'' # s)" "tok_end (CHR ''}'' # s)" "tok_end []"
  by (simp_all add: tok_end_def)

lemma parse_value_scalar:
  assumes "tok_end r"
  shows "parse_value (Suc m) (''null'' @ r) = Some (JNull, r)"
    and "parse_value (Suc m) (''true'' @ r) = Some (JBool True, r)"
    and "parse_value (Suc m) (''false'' @ r) = Some (JBool False, r)"
    and "parse_value (Suc m) (show_int i @ r) = Some (JInt i, r)"
    and "parse_value (Suc m) (encode_basestring s @ r) = Some (JStr s, r)"
proof -
  show "parse_value (Suc m) (''null'' @ r) = Some (JNull, r)"
    by (simp add: dquote_def)
  show "parse_value (Suc m) (''true'' @ r) = Some (JBool True, r)"
    by (simp add: dquote_def)
  show "parse_value (Suc m) (''false'' @ r) = Some (JBool False, r)"
    by (simp add: dquote_def)
  show "parse_value (Suc m) (encode_basestring s @ r) = Some (JStr s, r)"
    by (simp add: encode_basestring_def scanstring_encode)
  show "parse_value (Suc m) (show_int i @ r) = Some (JInt i, r)"
  proof (cases i rule: show_int_cases)
    case (1 cs)
    have "parse_value (Suc m) (CHR ''-'' # cs @ r) = parse_number (CHR ''-'' # cs @ r)"
      by (simp add: dquote_def)
    then show ?thesis using parse_number_show_int [OF assms, of i] 1 by simp
  next
    case (2 c cs)
    then have "c \<noteq> dquote" "c \<noteq> CHR ''{''" "c \<noteq> CHR ''[''" "c \<noteq> CHR ''n''" "c \<noteq> CHR ''t''"
      "c \<noteq> CHR ''f''"
      by (auto simp: is_digit_def less_eq_char_def dquote_def)
    then have "parse_value (Suc m) (c # cs @ r) = parse_number (c # cs @ r)"
      by (cases cs; cases r) (simp_all add: take_Cons')
    then show ?thesis using parse_number_show_int [OF assms, of i] 2 by simp
  qed
qed

lemma parse_elements_last:
  assumes "parse_value m (json_dumps x @ CHR '']'' # r) = Some (x, CHR '']'' # r)"
  shows "parse_elements (Suc m) (json_dumps x @ CHR '']'' # r) = Some ([x], r)"
  using assms by (simp add: skip_ws_simps)

lemma parse_elements_more:
  assumes "parse_value m (json_dumps x @ CHR '','' # CHR '' '' # rest) =
             Some (x, CHR '','' # CHR '' '' # rest)"
    and "starts_value rest" and "parse_elements m rest = Some (ys, r)"
  shows "parse_elements (Suc m) (json_dumps x @ CHR '','' # CHR '' '' # rest) = Some (x # ys, r)"
  using assms by (simp add: skip_ws_simps skip_ws_starts_value)

lemma parse_members_last:
  assumes "parse_value m (json_dumps v @ CHR ''}'' # r) = Some (v, CHR ''}'' # r)"
  shows "parse_members (Suc m) (encode_basestring k @ CHR '':'' # CHR '' '' # json_dumps v @ CHR ''}'' # r)
           = Some ([(k, v)], r)"
  using assms
  by (simp add: encode_basestring_def scanstring_encode skip_ws_simps
      skip_ws_starts_value starts_value_dumps starts_value_append)

lemma parse_members_more:
  assumes "parse_value m (json_dumps v @ CHR '','' # CHR '' '' # rest) =
             Some (v, CHR '','' # CHR '' '' # rest)"
    and "starts_value rest" and "parse_members m rest = Some (kvs, r)"
  shows "parse_members (Suc m)
           (encode_basestring k @ CHR '':'' # CHR '' '' # json_dumps v @ CHR '','' # CHR '' '' # rest)
           = Some ((k, v) # kvs, r)"
  using assms
  by (simp add: encode_basestring_def scanstring_encode skip_ws_simps
      skip_ws_starts_value starts_value_dumps starts_value_append)

lemma parse_value_array:
  assumes "xs \<noteq> []" and "parse_elements m (dumps_items xs @ CHR '']'' # r) = Some (xs, r)"
  shows "parse_value (Suc m) (CHR ''['' # dumps_items xs @ CHR '']'' # r) = Some (JArr xs, r)"
proof -
  have "starts_value (dumps_items xs @ CHR '']'' # r)"
    using assms(1) by (simp add: starts_value_items starts_value_append)
  then obtain d rest where e: "dumps_items xs @ CHR '']'' # r = d # rest"
    "\<not> is_ws d" "d \<noteq> CHR '']''"
    by (cases "dumps_items xs @ CHR '']'' # r") (auto simp: starts_value_def)
  then show ?thesis
    using assms(2) by (simp add: dquote_def skip_ws_def)
qed

lemma parse_value_object:
  assumes "kvs \<noteq> []" and "distinct (map fst kvs)"
    and "parse_members m (dumps_pairs kvs @ CHR ''}'' # r) = Some (kvs, r)"
  shows "parse_value (Suc m) (CHR ''{'' # dumps_pairs kvs @ CHR ''}'' # r) = Some (JObj kvs, r)"
proof -
  obtain cs where e: "dumps_pairs kvs = dquote # cs"
    using starts_value_pairs [OF assms(1)] by blast
  then show ?thesis
    using assms(3) by (simp add: dquote_def skip_ws_def is_ws_def dict_of_distinct [OF assms(2)])
qed

lemma parse_value_empty:
  "parse_value (Suc m) (''[]'' @ r) = Some (JArr [], r)"
  "parse_value (Suc m) (''{}'' @ r) = Some (JObj [], r)"
  by (simp_all add: dquote_def skip_ws_simps)

declare parse_value.simps [simp del] parse_elements.simps [simp del]
  parse_members.simps [simp del]

lemma parse_dumps:
  fixes v :: json and xs :: "json list" and kvs :: "(string \<times> json) list"
  shows "\<And>n r. wf_json v \<Longrightarrow> length (json_dumps v) \<le> n \<Longrightarrow> tok_end r \<Longrightarrow>
           parse_value n (json_dumps v @ r) = Some (v, r)"
    and "\<And>n r. list_all wf_json xs \<Longrightarrow> xs \<noteq> [] \<Longrightarrow> Suc (length (dumps_items xs)) \<le> n \<Longrightarrow>
           parse_elements n (dumps_items xs @ CHR '']'' # r) = Some (xs, r)"
    and "\<And>n r. list_all (\<lambda>kv. wf_json (snd kv)) kvs \<Longrightarrow> kvs \<noteq> [] \<Longrightarrow>
           Suc (length (dumps_pairs kvs)) \<le> n \<Longrightarrow>
           parse_members n (dumps_pairs kvs @ CHR ''}'' # r) = Some (kvs, r)"
proof (induction v and xs and kvs rule: json_dumps_dumps_items_dumps_pairs.induct)
  case 1
  from "1.prems"(2) obtain m where "n = Suc m" by (cases n) auto
  then show ?case using parse_value_scalar(1) [OF "1.prems"(3)] by simp
next
  case (2 b)
  from "2.prems"(2) obtain m where "n = Suc m" by (cases n) (auto split: if_splits)
  then show ?case using parse_value_scalar(2,3) [OF "2.prems"(3)] by simp
next
  case (3 i)
  have "show_int i \<noteq> []" by (cases i rule: show_int_cases) auto
  with "3.prems"(2) obtain m where "n = Suc m" by (cases n) auto
  then show ?case using parse_value_scalar(4) [OF "3.prems"(3)] by simp
next
  case (4 s)
  from "4.prems"(2) obtain m where "n = Suc m"
    by (cases n) (auto simp: encode_basestring_def)
  then show ?case using parse_value_scalar(5) [OF "4.prems"(3)] by simp
next
  case (5 xs)
  from "5.prems"(2) obtain m where m: "n = Suc m" "Suc (length (dumps_items xs)) \<le> m"
    by (cases n) auto
  have w: "list_all wf_json xs" using "5.prems"(1) by simp
  show ?case
  proof (cases "xs = []")
    case True
    then show ?thesis using m(1) parse_value_empty(1) [of m r] by simp
  next
    case False
    have "parse_elements m (dumps_items xs @ CHR '']'' # r) = Some (xs, r)"
      by (rule "5.IH" [OF w False m(2)])
    from parse_value_array [OF False this] show ?thesis using m(1) by simp
  qed
next
  case (6 kvs)
  from "6.prems"(2) obtain m where m: "n = Suc m" "Suc (length (dumps_pairs kvs)) \<le> m"
    by (cases n) auto
  have w: "list_all (\<lambda>kv. wf_json (snd kv)) kvs" and d: "distinct (map fst kvs)"
    using "6.prems"(1) by simp_all
  show ?case
  proof (cases "kvs = []")
    case True
    then show ?thesis using m(1) parse_value_empty(2) [of m r] by simp
  next
    case False
    have "parse_members m (dumps_pairs kvs @ CHR ''}'' # r) = Some (kvs, r)"
      by (rule "6.IH" [OF w False m(2)])
    from parse_value_object [OF False d this] show ?thesis using m(1) by simp
  qed
next
  case 7
  then show ?case by simp
next
  case (8 x)
  from "8.prems"(3) obtain m where m: "n = Suc m" "length (json_dumps x) \<le> m"
    by (cases n) auto
  have w: "wf_json x" using "8.prems"(1) by simp
  have "parse_value m (json_dumps x @ CHR '']'' # r) = Some (x, CHR '']'' # r)"
    by (rule "8.IH" [OF w m(2) tok_end_simps(2)])
  from parse_elements_last [OF this] show ?case using m(1) by simp
next
  case (9 x y ys)
  from "9.prems"(3) obtain m where m: "n = Suc m"
    "length (json_dumps x) + 2 + length (dumps_items (y # ys)) \<le> m" by (cases n) auto
  have w: "wf_json x" "list_all wf_json (y # ys)" using "9.prems"(1) by simp_all
  let ?rest = "dumps_items (y # ys) @ CHR '']'' # r"
  have l1: "length (json_dumps x) \<le> m" and l2: "Suc (length (dumps_items (y # ys))) \<le> m"
    using m(2) by simp_all
  have a: "parse_value m (json_dumps x @ CHR '','' # CHR '' '' # ?rest) =
             Some (x, CHR '','' # CHR '' '' # ?rest)"
    by (rule "9.IH"(1) [OF w(1) l1 tok_end_simps(1)])
  have b: "starts_value ?rest"
    by (rule starts_value_append) (simp add: starts_value_items)
  have c: "parse_elements m ?rest = Some (y # ys, r)"
    by (rule "9.IH"(2) [OF w(2) _ l2]) simp
  from parse_elements_more [OF a b c] show ?case using m(1) by simp
next
  case 10
  then show ?case by simp
next
  case (11 k v)
  from "11.prems"(3) obtain m where m: "n = Suc m" "length (json_dumps v) \<le> m"
    by (cases n) auto
  have w: "wf_json v" using "11.prems"(1) by simp
  have "parse_value m (json_dumps v @ CHR ''}'' # r) = Some (v, CHR ''}'' # r)"
    by (rule "11.IH" [OF w m(2) tok_end_simps(3)])
  from parse_members_last [OF this, of k] show ?case using m(1) by simp
next
  case (12 k v p ps)
  from "12.prems"(3) obtain m where m: "n = Suc m"
    "length (json_dumps v) + 2 + length (dumps_pairs (p # ps)) \<le> m" by (cases n) auto
  have w: "wf_json v" "list_all (\<lambda>kv. wf_json (snd kv)) (p # ps)"
    using "12.prems"(1) by simp_all
  let ?rest = "dumps_pairs (p # ps) @ CHR ''}'' # r"
  have l1: "length (json_dumps v) \<le> m" and l2: "Suc (length (dumps_pairs (p # ps))) \<le> m"
    using m(2) by simp_all
  have a: "parse_value m (json_dumps v @ CHR '','' # CHR '' '' # ?rest) =
             Some (v, CHR '','' # CHR '' '' # ?rest)"
    by (rule "12.IH"(1) [OF w(1) l1 tok_end_simps(1)])
  obtain cs where "dumps_pairs (p # ps) = dquote # cs"
    using starts_value_pairs [of "p # ps"] by auto
  then have b: "starts_value ?rest"
    by (simp add: starts_value_def is_ws_def dquote_def)
  have c: "parse_members m ?rest = Some (p # ps, r)"
    by (rule "12.IH"(2) [OF w(2) _ l2]) simp
  from parse_members_more [OF a b c, of k] show ?case using m(1) by simp
qed

lemma json_loads_dumps:
  assumes "wf_json v"
  shows "json_loads (json_dumps v) = Some v"
proof -
  have p: "parse_value (Suc (length (json_dumps v))) (json_dumps v @ []) = Some (v, [])"
    by (rule parse_dumps(1)) (use assms in \<open>simp_all add: tok_end_simps\<close>)
  have s: "skip_ws (json_dumps v) = json_dumps v"
    by (simp add: skip_ws_starts_value starts_value_dumps)
  have e: "skip_ws [] = []" by (simp add: skip_ws_def)
  show ?thesis
    unfolding json_loads_def s using p by (simp add: e)
qed

lemma json_dumps_nonempty: "json_dumps v \<noteq> []"
  using starts_value_dumps [of v] by (auto simp: starts_value_def)

section \<open>The order of the list\<close>

lemma mset_insort_desc: "mset (insort_desc x ys) = add_mset x (mset ys)"
  by (induction ys) auto

lemma set_insort_desc: "set (insort_desc x ys) = insert x (set ys)"
  by (induction ys) auto

lemma mset_order_by_timestamp_desc: "mset (order_by_timestamp_desc rows) = mset rows"
  by (induction rows) (simp_all add: order_by_timestamp_desc_def mset_insort_desc)

lemma sorted_insort_desc:
  "sorted_wrt (\<lambda>a b. a_timestamp b \<le> a_timestamp a) ys \<Longrightarrow>
   sorted_wrt (\<lambda>a b. a_timestamp b \<le> a_timestamp a) (insort_desc x ys)"
  by (induction ys) (auto simp: set_insort_desc)

lemma sorted_order_by_timestamp_desc:
  "sorted_wrt (\<lambda>a b. a_timestamp b \<le> a_timestamp a) (order_by_timestamp_desc rows)"
  by (induction rows) (simp_all add: order_by_timestamp_desc_def sorted_insort_desc)

lemma rows_evaluations_Inr_iff:
  "rows_evaluations rs = Inr evs \<longleftrightarrow> map row_evaluation rs = map Inr evs"
proof (induction rs arbitrary: evs)
  case Nil
  then show ?case by auto
next
  case (Cons r rs)
  show ?case
    by (cases evs) (auto simp: then_exn_Inr_iff Cons.IH)
qed

lemma row_evaluation_timestamp:
  "row_evaluation r = Inr e \<Longrightarrow> e_timestamp e = a_timestamp r"
  by (auto simp: row_evaluation_def then_exn_Inr_iff)

lemma rows_evaluations_timestamps:
  "rows_evaluations rs = Inr evs \<Longrightarrow> map e_timestamp evs = map a_timestamp rs"
proof (induction rs arbitrary: evs)
  case Nil
  then show ?case by simp
next
  case (Cons r rs)
  then show ?case
    by (auto simp: then_exn_Inr_iff row_evaluation_timestamp)
qed

lemma rows_evaluations_total:
  assumes "\<forall>r \<in> set rs. \<exists>e. row_evaluation r = Inr e"
  shows "\<exists>evs. rows_evaluations rs = Inr evs"
  using assms by (induction rs) auto

lemma get_evaluations_success:
  assumes "store_up ev" and "\<forall>r \<in> set (avaliacoes st). \<exists>e. row_evaluation r = Inr e"
  shows "\<exists>evs. rows_evaluations (order_by_timestamp_desc (avaliacoes st)) = Inr evs \<and>
           get_evaluations ev st = ((Evaluations evs (length evs), 200), st)"
proof -
  have "set (order_by_timestamp_desc (avaliacoes st)) = set (avaliacoes st)"
    using mset_order_by_timestamp_desc [of "avaliacoes st"] by (metis set_mset_mset)
  with assms(2) obtain evs where
    e: "rows_evaluations (order_by_timestamp_desc (avaliacoes st)) = Inr evs"
    using rows_evaluations_total [of "order_by_timestamp_desc (avaliacoes st)"] by auto
  then have "get_evaluations ev st = ((Evaluations evs (length evs), 200), st)"
    using assms(1) by (simp add: get_evaluations_def get_evaluations_try_def get_connection_def)
  with e show ?thesis by blast
qed

text \<open>
  C10. With the store reachable and every row decodable, \<open>get_evaluations\<close> answers 200
  with one evaluation for each row of the table (the count in the body is the number of
  rows), and the list is in descending order of the text of the timestamps: of two
  evaluations the earlier in the list has the greater or equal timestamp, compared as
  strings.
\<close>

theorem get_evaluations_sorted:
  assumes "store_up ev" and "\<forall>r \<in> set (avaliacoes st). \<exists>e. row_evaluation r = Inr e"
  shows "\<exists>evs. get_evaluations ev st = ((Evaluations evs (length (avaliacoes st)), 200), st) \<and>
           sorted_wrt (\<lambda>x y. e_timestamp y \<le> e_timestamp x) evs \<and>
           mset (map Inr evs) = mset (map row_evaluation (avaliacoes st))"
proof -
  let ?rows = "order_by_timestamp_desc (avaliacoes st)"
  from get_evaluations_success [OF assms] obtain evs where
    e: "rows_evaluations ?rows = Inr evs"
    and g: "get_evaluations ev st = ((Evaluations evs (length evs), 200), st)" by blast
  have m: "map row_evaluation ?rows = map Inr evs"
    using e by (simp add: rows_evaluations_Inr_iff)
  have "length evs = length ?rows" using m by (metis length_map)
  also have "\<dots> = length (avaliacoes st)"
    using mset_order_by_timestamp_desc [of "avaliacoes st"] by (metis size_mset)
  finally have l: "length evs = length (avaliacoes st)" .
  have "sorted_wrt (\<lambda>a b. b \<le> a) (map a_timestamp ?rows)"
    using sorted_order_by_timestamp_desc [of "avaliacoes st"] by (simp add: sorted_wrt_map)
  then have "sorted_wrt (\<lambda>a b. b \<le> a) (map e_timestamp evs)"
    using rows_evaluations_timestamps [OF e] by simp
  then have s: "sorted_wrt (\<lambda>x y. e_timestamp y \<le> e_timestamp x) evs"
    by (simp add: sorted_wrt_map)
  have "mset (map Inr evs) = image_mset row_evaluation (mset ?rows)"
    using m by (metis mset_map)
  then have i: "mset (map Inr evs) = mset (map row_evaluation (avaliacoes st))"
    by (simp add: mset_order_by_timestamp_desc)
  show ?thesis
  proof (rule exI [of _ evs], intro conjI)
    show "get_evaluations ev st = ((Evaluations evs (length (avaliacoes st)), 200), st)"
      using g l by simp
    show "sorted_wrt (\<lambda>x y. e_timestamp y \<le> e_timestamp x) evs" by (rule s)
    show "mset (map Inr evs) = mset (map row_evaluation (avaliacoes st))" by (rule i)
  qed
qed

section \<open>Sectors and feedback, from submission to list\<close>

lemma log_avaliacoes [simp]:
  "avaliacoes (log_info m st) = avaliacoes st"
  "avaliacoes (log_action ev a d st) = avaliacoes st"
  by (simp_all add: log_info_def log_action_def get_connection_def log_error_def)

lemma submit_saved:
  assumes "submit_evaluation ev st (JObj kvs) = ((Saved i, 200), st')"
  shows "\<exists>dev st1 st2. has_voted_today ev st dev = (False, st1) \<and>
           save_evaluation ev st1 (JObj kvs) dev = Inr st2 \<and> avaliacoes st' = avaliacoes st2"
proof -
  from assms obtain dev where d: "map_of kvs ''dispositivoId'' = Some dev"
    by (auto simp: submit_evaluation_def submit_failed_def split: sum.splits option.splits)
  obtain b st1 where v: "has_voted_today ev st dev = (b, st1)"
    by (cases "has_voted_today ev st dev") auto
  have nb: "b = False"
    using assms d v
    by (cases b) (auto simp: submit_evaluation_def submit_failed_def split: sum.splits option.splits)
  obtain st2 where s: "save_evaluation ev st1 (JObj kvs) dev = Inr st2"
    using assms d v nb
    by (cases "save_evaluation ev st1 (JObj kvs) dev")
      (auto simp: submit_evaluation_def submit_failed_def split: sum.splits option.splits)
  have a: "avaliacoes st' = avaliacoes st2"
    using assms d v nb s
    by (auto simp: submit_evaluation_def submit_failed_def split: sum.splits option.splits)
  show ?thesis
    by (rule exI [of _ dev], rule exI [of _ st1], rule exI [of _ st2]) (simp add: v nb s a)
qed

lemma insert_avaliacao_Inr:
  assumes "insert_avaliacao ev vid vdisp vts vav vset vfb st = Inr st1"
  shows "\<exists>row. avaliacoes st1 = avaliacoes st @ [row] \<and> a_setores row = vset \<and>
           a_feedback row = vfb"
  using assms by (auto simp: insert_avaliacao_def split: option.splits if_splits)

lemma replace_controle_Inr:
  assumes "replace_controle ev vdisp vts updated st = Inr st2"
  shows "avaliacoes st2 = avaliacoes st"
  using assms by (auto simp: replace_controle_def split: option.splits)

lemma save_evaluation_row:
  assumes "save_evaluation ev st (JObj kvs) dev = Inr st2"
  shows "\<exists>row p. avaliacoes st2 = avaliacoes st @ [row] \<and>
     a_setores row = Some (json_dumps (case map_of kvs ''setores'' of None \<Rightarrow> JObj [] | Some v \<Rightarrow> v)) \<and>
     bind_param (case map_of kvs ''feedback'' of None \<Rightarrow> JStr [] | Some v \<Rightarrow> v) = Inr p \<and>
     a_feedback row = text_affinity p"
proof -
  let ?v = "case map_of kvs ''setores'' of None \<Rightarrow> JObj [] | Some v \<Rightarrow> v"
  let ?f = "case map_of kvs ''feedback'' of None \<Rightarrow> JStr [] | Some v \<Rightarrow> v"
  from assms obtain p vid vdisp vts vav conn1 qd qt where
    b: "bind_param ?f = Inr p"
    and i: "insert_avaliacao ev vid vdisp vts vav (Some (json_dumps ?v)) (text_affinity p) st =
              Inr conn1"
    and r: "replace_controle ev qd qt (isoformat (brazil_time ev)) conn1 = Inr st2"
    by (auto simp: save_evaluation_def then_exn_Inr_iff get_connection_def split: if_splits)
  from insert_avaliacao_Inr [OF i] obtain row where
    row: "avaliacoes conn1 = avaliacoes st @ [row]" "a_setores row = Some (json_dumps ?v)"
      "a_feedback row = text_affinity p" by blast
  have "avaliacoes st2 = avaliacoes st @ [row]"
    using replace_controle_Inr [OF r] row(1) by simp
  then show ?thesis
    using row(2,3) b by blast
qed

lemma wf_json_map_of:
  "wf_json (JObj kvs) \<Longrightarrow> map_of kvs k = Some v \<Longrightarrow> wf_json v"
  by (auto simp: list_all_iff dest: map_of_SomeD)

lemma row_evaluation_stored:
  assumes "wf_json v" and "a_setores row = Some (json_dumps v)"
  shows "row_evaluation row =
     Inr \<lparr>e_id = a_id row, e_dispositivoId = a_dispositivo_id row,
          e_timestamp = a_timestamp row, e_avaliacaoGeral = a_avaliacao_geral row,
          e_setores = v,
          e_feedback = (case a_feedback row of None \<Rightarrow> [] | Some f \<Rightarrow> f)\<rparr>"
  using assms by (simp add: row_evaluation_def json_loads_dumps json_dumps_nonempty)

text \<open>
  C5. When a request body that is a JSON object with distinct keys at every level is
  accepted (200), the evaluations table has one row more; with the store reachable and
  the older rows decodable the list operation answers 200, and the evaluation it returns
  for the new row has the sectors of the body unchanged, or the empty object when the body
  has none, and the feedback string of the body unchanged, or the empty string when the
  body has none.
\<close>

theorem submit_then_list_round_trip:
  assumes "wf_json (JObj kvs)"
    and "submit_evaluation ev st (JObj kvs) = ((Saved i, 200), st')"
    and "store_up ev'"
    and "\<forall>r \<in> set (avaliacoes st). \<exists>e. row_evaluation r = Inr e"
  shows "\<exists>row e evs. avaliacoes st' = avaliacoes st @ [row] \<and> row_evaluation row = Inr e \<and>
      get_evaluations ev' st' = ((Evaluations evs (length evs), 200), st') \<and> e \<in> set evs \<and>
      e_setores e = (case map_of kvs ''setores'' of None \<Rightarrow> JObj [] | Some v \<Rightarrow> v) \<and>
      (map_of kvs ''feedback'' = None \<longrightarrow> e_feedback e = []) \<and>
      (\<forall>f. map_of kvs ''feedback'' = Some (JStr f) \<longrightarrow> e_feedback e = f)"
proof -
  let ?v = "case map_of kvs ''setores'' of None \<Rightarrow> JObj [] | Some v \<Rightarrow> v"
  from submit_saved [OF assms(2)] obtain dev st1 st2 where
    h: "has_voted_today ev st dev = (False, st1)"
    and s: "save_evaluation ev st1 (JObj kvs) dev = Inr st2"
    and a: "avaliacoes st' = avaliacoes st2" by blast
  have t: "avaliacoes st1 = avaliacoes st"
    using has_voted_today_tables(1) [of ev st dev] h by simp
  from save_evaluation_row [OF s] obtain row p where
    r: "avaliacoes st2 = avaliacoes st1 @ [row]"
    and rs: "a_setores row = Some (json_dumps ?v)"
    and b: "bind_param (case map_of kvs ''feedback'' of None \<Rightarrow> JStr [] | Some v \<Rightarrow> v) = Inr p"
    and rf: "a_feedback row = text_affinity p" by blast
  have w: "wf_json ?v"
    using assms(1) wf_json_map_of [OF assms(1)] by (cases "map_of kvs ''setores''") auto
  let ?e = "\<lparr>e_id = a_id row, e_dispositivoId = a_dispositivo_id row,
          e_timestamp = a_timestamp row, e_avaliacaoGeral = a_avaliacao_geral row,
          e_setores = ?v,
          e_feedback = (case a_feedback row of None \<Rightarrow> [] | Some f \<Rightarrow> f)\<rparr>"
  have re: "row_evaluation row = Inr ?e"
    by (rule row_evaluation_stored [OF w rs])
  have rows: "avaliacoes st' = avaliacoes st @ [row]"
    using a r t by simp
  have "\<forall>r \<in> set (avaliacoes st'). \<exists>e. row_evaluation r = Inr e"
    using assms(4) re rows by auto
  from get_evaluations_success [OF assms(3) this] obtain evs where
    e: "rows_evaluations (order_by_timestamp_desc (avaliacoes st')) = Inr evs"
    and g: "get_evaluations ev' st' = ((Evaluations evs (length evs), 200), st')" by blast
  have "row \<in># mset (order_by_timestamp_desc (avaliacoes st'))"
    by (simp add: mset_order_by_timestamp_desc rows)
  then have mr: "row_evaluation row \<in> set (map row_evaluation (order_by_timestamp_desc (avaliacoes st')))"
    by simp
  have eq: "map row_evaluation (order_by_timestamp_desc (avaliacoes st')) = map Inr evs"
    using e by (simp add: rows_evaluations_Inr_iff)
  have m: "?e \<in> set evs"
    using mr unfolding eq re by auto
  have f1: "map_of kvs ''feedback'' = None \<longrightarrow> e_feedback ?e = []"
    using b rf by auto
  have f2: "\<forall>f. map_of kvs ''feedback'' = Some (JStr f) \<longrightarrow> e_feedback ?e = f"
    using b rf by auto
  have s2: "e_setores ?e = ?v" by simp
  show ?thesis
    by (rule exI [of _ row], rule exI [of _ ?e], rule exI [of _ evs])
      (intro conjI rows re g m s2 f1 f2)
qed

section \<open>Accepted submissions and the evening example\<close>

lemmas clock_defs =
  fromisoformat_def replace_Z_def parse_isoformat_date_def parse_isoformat_time_def
  parse_hh_mm_ss_ff_def all_digits_def is_digit_def read_nat_def digit_val_def
  valid_datetime_def days_in_month_def is_leap_def is_same_day_def date_of_def evening_def

lemma fromisoformat_first_vote:
  "fromisoformat (replace_Z ''2024-01-02T01:00:00.000Z'') = Some first_vote_instant"
  by (simp add: clock_defs first_vote_instant_def)

lemma has_voted_today_other_date:
  assumes "store_up ev"
    and "find (\<lambda>r. c_dispositivo_id r = Some d) (controle_votacao st) = Some r"
    and "fromisoformat (replace_Z (c_ultimo_voto r)) = Some t"
    and "date_of t \<noteq> date_of (brazil_time ev)"
  shows "has_voted_today ev st (JStr d) = (False, st)"
  unfolding has_voted_today_def has_voted_today_try_def get_connection_def
    select_ultimo_voto_def
  using assms by (simp add: is_same_day_def)

lemma first_vote_other_date: "date_of first_vote_instant \<noteq> date_of (brazil_time env_up)"
  by (simp add: date_of_def first_vote_instant_def env_up_def evening_def)

lemma find_tablet1_evening:
  "find (\<lambda>r. c_dispositivo_id r = Some ''tablet-1'') (controle_votacao state_evening) =
     Some vote_tablet1"
  by (simp add: state_evening_def vote_tablet3_def vote_tablet1_def)

lemma ultimo_voto_tablet1: "c_ultimo_voto vote_tablet1 = ''2024-01-02T01:00:00.000Z''"
  by (simp add: vote_tablet1_def)

lemma store_up_env_up: "store_up env_up"
  by (simp add: env_up_def)

lemma toordinal_first_vote: "toordinal (date_of first_vote_instant) = 738887"
  by (simp add: toordinal_def days_before_year_def days_before_month_def date_of_def
      first_vote_instant_def)

lemma toordinal_evening: "toordinal (date_of evening) = 738886"
  by (simp add: toordinal_def days_before_year_def days_before_month_def date_of_def
      evening_def)

lemma spec_local_day_first_vote:
  "spec_local_day sao_paulo first_vote_instant = Some 738886"
  unfolding spec_local_day_def toordinal_first_vote
  by (simp add: sao_paulo_def first_vote_instant_def)

lemma spec_local_day_evening:
  "spec_local_day sao_paulo evening = Some 738886"
  unfolding spec_local_day_def toordinal_evening
  by (simp add: sao_paulo_def evening_def)

lemma submit_evaluation_accepted:
  assumes "map_of kvs ''id'' = Some (JStr i)"
    and "map_of kvs ''dispositivoId'' = Some (JStr dev)"
    and "map_of kvs ''timestamp'' = Some (JStr ts)"
    and "map_of kvs ''avaliacaoGeral'' = Some (JStr av)"
    and "bind_param (case map_of kvs ''feedback'' of None \<Rightarrow> JStr [] | Some v \<Rightarrow> v) = Inr p"
    and "store_up ev"
    and "has_voted_today ev st (JStr dev) = (False, st)"
    and "Some i \<notin> set (map a_id (avaliacoes st))"
  shows "\<exists>st'. submit_evaluation ev st (JObj kvs) = ((Saved (JStr i), 200), st') \<and>
      avaliacoes st' = avaliacoes st @
        [\<lparr>a_id = Some i, a_dispositivo_id = dev, a_timestamp = ts, a_avaliacao_geral = av,
          a_setores = Some (json_dumps (case map_of kvs ''setores'' of None \<Rightarrow> JObj []
                                        | Some v \<Rightarrow> v)),
          a_feedback = text_affinity p, a_created_at = current_timestamp ev\<rparr>] \<and>
      controle_votacao st' =
        filter (\<lambda>r. c_dispositivo_id r \<noteq> Some dev) (controle_votacao st) @
        [\<lparr>c_dispositivo_id = Some dev, c_ultimo_voto = ts,
          c_created_at = current_timestamp ev, c_updated_at = isoformat (brazil_time ev)\<rparr>]"
proof -
  have m: "missing_field (JObj kvs) required_fields = Inr None"
    using assms(1-4) by (simp add: missing_field_obj required_fields_def)
  show ?thesis
    using assms
    by (simp add: submit_evaluation_def m save_evaluation_def get_connection_def
        insert_avaliacao_def replace_controle_def log_action_def log_info_def
        del: json_dumps.simps)
qed

lemma rows_evaluations_ids:
  "rows_evaluations rs = Inr evs \<Longrightarrow> map e_id evs = map a_id rs"
proof (induction rs arbitrary: evs)
  case Nil
  then show ?case by simp
next
  case (Cons r rs)
  then show ?case
    by (auto simp: then_exn_Inr_iff row_evaluation_def)
qed

lemma json_dumps_empty_object: "json_dumps (JObj []) = ''{}''"
  by simp

lemma rows_evening_decodable:
  "\<forall>r \<in> set (avaliacoes state_evening). \<exists>e. row_evaluation r = Inr e"
proof -
  have "a_setores row_tablet1 = Some (json_dumps (JObj []))"
    by (simp add: row_tablet1_def)
  then have 1: "\<exists>e. row_evaluation row_tablet1 = Inr e"
    using row_evaluation_stored [of "JObj []" row_tablet1] by simp
  have "a_setores row_tablet3 = Some (json_dumps (JObj [(''forno'', JInt 5)]))"
    by (simp add: row_tablet3_def)
  then have 3: "\<exists>e. row_evaluation row_tablet3 = Inr e"
    using row_evaluation_stored [of "JObj [(''forno'', JInt 5)]" row_tablet3] by simp
  have 4: "\<exists>e. row_evaluation row_tablet4 = Inr e"
    by (simp add: row_evaluation_def row_tablet4_def)
  show ?thesis
    using 1 3 4 by (simp add: state_evening_def)
qed

lemma order_by_timestamp_desc_evening:
  "order_by_timestamp_desc (avaliacoes state_evening) = [row_tablet1, row_tablet3, row_tablet4]"
proof -
  have t: "a_timestamp row_tablet1 = ''2024-01-02T01:00:00.000Z''"
    "a_timestamp row_tablet3 = ''2024-01-01T09:15:00-03:00''"
    "a_timestamp row_tablet4 = ''2023-12-31T17:40:00-03:00''"
    by (simp_all add: row_tablet1_def row_tablet3_def row_tablet4_def)
  show ?thesis
    by (simp add: order_by_timestamp_desc_def state_evening_def t)
qed

theorem get_evaluations_sorted_witness:
  "store_up env_up \<and>
   list_all (\<lambda>r. \<exists>e. row_evaluation r = Inr e) (avaliacoes state_evening) \<and>
   map a_id (avaliacoes state_evening) = [Some ''ev-9'', Some ''ev-0'', Some ''ev-1''] \<and>
   (\<exists>evs. get_evaluations env_up state_evening = ((Evaluations evs 3, 200), state_evening) \<and>
      sorted_wrt (\<lambda>x y. e_timestamp y \<le> e_timestamp x) evs \<and>
      map e_id evs = [Some ''ev-1'', Some ''ev-0'', Some ''ev-9''])"
proof -
  note h1 = store_up_env_up
  note h2 = rows_evening_decodable
  from get_evaluations_sorted [OF h1 h2] obtain evs where
    g: "get_evaluations env_up state_evening =
          ((Evaluations evs (length (avaliacoes state_evening)), 200), state_evening)"
    and s: "sorted_wrt (\<lambda>x y. e_timestamp y \<le> e_timestamp x) evs" by blast
  from get_evaluations_success [OF h1 h2] obtain evs' where
    e': "rows_evaluations (order_by_timestamp_desc (avaliacoes state_evening)) = Inr evs'"
    and g': "get_evaluations env_up state_evening =
               ((Evaluations evs' (length evs'), 200), state_evening)" by blast
  have "evs' = evs" using g g' by simp
  then have "map e_id evs = map a_id [row_tablet1, row_tablet3, row_tablet4]"
    using rows_evaluations_ids [OF e'] by (simp only: order_by_timestamp_desc_evening)
  then have ids: "map e_id evs = [Some ''ev-1'', Some ''ev-0'', Some ''ev-9'']"
    by (simp add: row_tablet1_def row_tablet3_def row_tablet4_def)
  have l: "length (avaliacoes state_evening) = 3" by (simp add: state_evening_def)
  have a: "map a_id (avaliacoes state_evening) = [Some ''ev-9'', Some ''ev-0'', Some ''ev-1'']"
    by (simp add: state_evening_def row_tablet1_def row_tablet3_def row_tablet4_def)
  have g3: "get_evaluations env_up state_evening = ((Evaluations evs 3, 200), state_evening)"
    using g l by simp
  have d: "list_all (\<lambda>r. \<exists>e. row_evaluation r = Inr e) (avaliacoes state_evening)"
    using h2 by (simp add: list_all_iff)
  show ?thesis
    by (intro conjI h1 d a exI [of _ evs] g3 s ids)
qed

lemma has_voted_today_tablet2:
  "has_voted_today env_up state_evening (JStr ''tablet-2'') = (False, state_evening)"
proof -
  have "\<forall>r \<in> set (controle_votacao state_evening). c_dispositivo_id r \<noteq> Some ''tablet-2''"
    by (simp add: state_evening_def vote_tablet1_def vote_tablet3_def)
  then show ?thesis
    using store_up_env_up by (simp add: has_voted_today_no_row(2))
qed

lemma ids_evening:
  "Some ''ev-2'' \<notin> set (map a_id (avaliacoes state_evening))"
  "Some ''ev-3'' \<notin> set (map a_id (avaliacoes state_evening))"
  by (simp_all add: state_evening_def row_tablet1_def row_tablet3_def row_tablet4_def)

theorem submit_then_list_round_trip_witness:
  "wf_json (JObj payload_full) \<and> wf_json (JObj (payload ''ev-3'' ''tablet-2'')) \<and>
   store_up env_up \<and>
   list_all (\<lambda>r. \<exists>e. row_evaluation r = Inr e) (avaliacoes state_evening) \<and>
   (\<exists>st' row e evs.
      submit_evaluation env_up state_evening (JObj payload_full) =
        ((Saved (JStr ''ev-2''), 200), st') \<and>
      avaliacoes st' = avaliacoes state_evening @ [row] \<and> row_evaluation row = Inr e \<and>
      get_evaluations env_up st' = ((Evaluations evs (length evs), 200), st') \<and>
      e \<in> set evs \<and>
      e_setores e = JObj [(''forno'', JInt 5), (''moagem'', JInt 3)] \<and>
      e_feedback e = ''Muito bom'') \<and>
   (\<exists>st' row e evs.
      submit_evaluation env_up state_evening (JObj (payload ''ev-3'' ''tablet-2'')) =
        ((Saved (JStr ''ev-3''), 200), st') \<and>
      avaliacoes st' = avaliacoes state_evening @ [row] \<and> row_evaluation row = Inr e \<and>
      get_evaluations env_up st' = ((Evaluations evs (length evs), 200), st') \<and>
      e \<in> set evs \<and> e_setores e = JObj [] \<and> e_feedback e = [])"
proof -
  have w1: "wf_json (JObj payload_full)"
    by (simp add: payload_full_def payload_def sectors_def)
  have w2: "wf_json (JObj (payload ''ev-3'' ''tablet-2''))"
    by (simp add: payload_def)
  note u = store_up_env_up
  note h = rows_evening_decodable
  have d: "list_all (\<lambda>r. \<exists>e. row_evaluation r = Inr e) (avaliacoes state_evening)"
    using h by (simp add: list_all_iff)
  have "\<exists>st'. submit_evaluation env_up state_evening (JObj payload_full) =
           ((Saved (JStr ''ev-2''), 200), st')"
    using submit_evaluation_accepted [of payload_full "''ev-2''" "''tablet-2''"
        "''2024-01-01T22:30:00-03:00''" "''bom''" "SqlText ''Muito bom''" env_up state_evening]
      u has_voted_today_tablet2 ids_evening(1)
    by (auto simp add: payload_full_def payload_def)
  then obtain st1 where s1: "submit_evaluation env_up state_evening (JObj payload_full) =
           ((Saved (JStr ''ev-2''), 200), st1)" ..
  let ?B1 = "\<lambda>row e evs. avaliacoes st1 = avaliacoes state_evening @ [row] \<and>
      row_evaluation row = Inr e \<and>
      get_evaluations env_up st1 = ((Evaluations evs (length evs), 200), st1) \<and>
      e \<in> set evs \<and>
      e_setores e = (case map_of payload_full ''setores'' of None \<Rightarrow> JObj [] | Some v \<Rightarrow> v) \<and>
      (map_of payload_full ''feedback'' = None \<longrightarrow> e_feedback e = []) \<and>
      (\<forall>f. map_of payload_full ''feedback'' = Some (JStr f) \<longrightarrow> e_feedback e = f)"
  from submit_then_list_round_trip [OF w1 s1 u h]
  obtain row1 where "\<exists>e evs. ?B1 row1 e evs" ..
  then obtain e1 where "\<exists>evs. ?B1 row1 e1 evs" ..
  then obtain evs1 where z1: "?B1 row1 e1 evs1" ..
  note r1 = z1 [THEN conjunct1] z1 [THEN conjunct2, THEN conjunct1]
    z1 [THEN conjunct2, THEN conjunct2, THEN conjunct1]
    z1 [THEN conjunct2, THEN conjunct2, THEN conjunct2, THEN conjunct1]
  note x1 = z1 [THEN conjunct2, THEN conjunct2, THEN conjunct2, THEN conjunct2, THEN conjunct1]
  note y1 = z1 [THEN conjunct2, THEN conjunct2, THEN conjunct2, THEN conjunct2, THEN conjunct2,
    THEN conjunct2]
  have x1': "e_setores e1 = JObj [(''forno'', JInt 5), (''moagem'', JInt 3)]"
    using x1 by (simp add: payload_full_def payload_def sectors_def)
  have y1': "e_feedback e1 = ''Muito bom''"
    using y1 by (simp add: payload_full_def payload_def)
  have "\<exists>st'. submit_evaluation env_up state_evening (JObj (payload ''ev-3'' ''tablet-2'')) =
           ((Saved (JStr ''ev-3''), 200), st')"
    using submit_evaluation_accepted [of "payload ''ev-3'' ''tablet-2''" "''ev-3''" "''tablet-2''"
        "''2024-01-01T22:30:00-03:00''" "''bom''" "SqlText []" env_up state_evening]
      u has_voted_today_tablet2 ids_evening(2)
    by (auto simp add: payload_def)
  then obtain st2 where s2: "submit_evaluation env_up state_evening
      (JObj (payload ''ev-3'' ''tablet-2'')) = ((Saved (JStr ''ev-3''), 200), st2)" ..
  let ?B2 = "\<lambda>row e evs. avaliacoes st2 = avaliacoes state_evening @ [row] \<and>
      row_evaluation row = Inr e \<and>
      get_evaluations env_up st2 = ((Evaluations evs (length evs), 200), st2) \<and>
      e \<in> set evs \<and>
      e_setores e = (case map_of (payload ''ev-3'' ''tablet-2'') ''setores'' of
                       None \<Rightarrow> JObj [] | Some v \<Rightarrow> v) \<and>
      (map_of (payload ''ev-3'' ''tablet-2'') ''feedback'' = None \<longrightarrow> e_feedback e = []) \<and>
      (\<forall>f. map_of (payload ''ev-3'' ''tablet-2'') ''feedback'' = Some (JStr f) \<longrightarrow>
           e_feedback e = f)"
  from submit_then_list_round_trip [OF w2 s2 u h]
  obtain row2 where "\<exists>e evs. ?B2 row2 e evs" ..
  then obtain e2 where "\<exists>evs. ?B2 row2 e2 evs" ..
  then obtain evs2 where z2: "?B2 row2 e2 evs2" ..
  note r2 = z2 [THEN conjunct1] z2 [THEN conjunct2, THEN conjunct1]
    z2 [THEN conjunct2, THEN conjunct2, THEN conjunct1]
    z2 [THEN conjunct2, THEN conjunct2, THEN conjunct2, THEN conjunct1]
  note x2 = z2 [THEN conjunct2, THEN conjunct2, THEN conjunct2, THEN conjunct2, THEN conjunct1]
  note y2 = z2 [THEN conjunct2, THEN conjunct2, THEN conjunct2, THEN conjunct2, THEN conjunct2,
    THEN conjunct1]
  have x2': "e_setores e2 = JObj []"
    using x2 by (simp add: payload_def)
  have y2': "e_feedback e2 = []"
    using y2 by (simp add: payload_def)
  have c1: "\<exists>st' row e evs.
      submit_evaluation env_up state_evening (JObj payload_full) =
        ((Saved (JStr ''ev-2''), 200), st') \<and>
      avaliacoes st' = avaliacoes state_evening @ [row] \<and> row_evaluation row = Inr e \<and>
      get_evaluations env_up st' = ((Evaluations evs (length evs), 200), st') \<and>
      e \<in> set evs \<and>
      e_setores e = JObj [(''forno'', JInt 5), (''moagem'', JInt 3)] \<and>
      e_feedback e = ''Muito bom''"
    by (rule exI [of _ st1], rule exI [of _ row1], rule exI [of _ e1], rule exI [of _ evs1])
      (intro conjI s1 r1 x1' y1')
  have c2: "\<exists>st' row e evs.
      submit_evaluation env_up state_evening (JObj (payload ''ev-3'' ''tablet-2'')) =
        ((Saved (JStr ''ev-3''), 200), st') \<and>
      avaliacoes st' = avaliacoes state_evening @ [row] \<and> row_evaluation row = Inr e \<and>
      get_evaluations env_up st' = ((Evaluations evs (length evs), 200), st') \<and>
      e \<in> set evs \<and> e_setores e = JObj [] \<and> e_feedback e = []"
    by (rule exI [of _ st2], rule exI [of _ row2], rule exI [of _ e2], rule exI [of _ evs2])
      (intro conjI s2 r2 x2' y2')
  show ?thesis
    by (intro conjI w1 w2 u d c1 c2)
qed

section \<open>The calendar day of a vote\<close>

text \<open>
  C1. \<open>has_voted_today\<close> compares the calendar fields of the stored timestamp as they
  are written with the calendar fields of the clock; it does not take the date of the
  stored instant in America/Sao\_Paulo. In the evening example \<open>tablet-1\<close> voted at 22:00
  local time on 1 January 2024 and its timestamp was written in UTC,
  \<^verbatim>\<open>2024-01-02T01:00:00.000Z\<close>. At 22:30 the same evening \<open>has_voted_today\<close> answers
  false for it, although the vote and the clock are on the same calendar date of the
  zone, which is what the rule in the words of the specification answers.
\<close>

theorem has_voted_today_ignores_timezone:
  "has_voted_today env_up state_evening (JStr ''tablet-1'') = (False, state_evening) \<and>
   spec_has_voted_today sao_paulo env_up state_evening ''tablet-1'' = Some True"
proof -
  have c: "fromisoformat (replace_Z (c_ultimo_voto vote_tablet1)) = Some first_vote_instant"
    unfolding ultimo_voto_tablet1 by (rule fromisoformat_first_vote)
  have a: "has_voted_today env_up state_evening (JStr ''tablet-1'') = (False, state_evening)"
    by (rule has_voted_today_other_date
          [OF store_up_env_up find_tablet1_evening c first_vote_other_date])
  have b: "brazil_time env_up = evening" by (simp add: env_up_def)
  have "spec_has_voted_today sao_paulo env_up state_evening ''tablet-1'' = Some True"
    unfolding spec_has_voted_today_def find_tablet1_evening
    by (simp add: c b spec_local_day_first_vote spec_local_day_evening)
  with a show ?thesis by simp
qed

text \<open>
  C2. The device \<open>tablet-1\<close> submits a valid evaluation at 22:00 local time, with the
  instant in UTC as its timestamp, and it is accepted. At 22:30 of the same local day it
  submits a second valid evaluation: the answer is 200, not 409, and the evaluations table
  then has both rows of the device.
\<close>

theorem second_submission_same_day_accepted:
  "\<exists>st1 st2.
     submit_evaluation env_2200 state_before (JObj first_vote) = ((Saved (JStr ''ev-1''), 200), st1) \<and>
     submit_evaluation env_up st1 (JObj second_vote) = ((Saved (JStr ''ev-2''), 200), st2) \<and>
     is_same_day (brazil_time env_2200) (brazil_time env_up) \<and>
     map a_id (filter (\<lambda>r. a_dispositivo_id r = ''tablet-1'') (avaliacoes st2)) =
       [Some ''ev-1'', Some ''ev-2''] \<and>
     length (avaliacoes st2) = length (avaliacoes state_before) + 2"
proof -
  have u: "store_up env_2200" by (simp add: env_2200_def)
  have "\<forall>r \<in> set (controle_votacao state_before). c_dispositivo_id r \<noteq> Some ''tablet-1''"
    by (simp add: state_before_def vote_tablet3_def)
  then have v: "has_voted_today env_2200 state_before (JStr ''tablet-1'') = (False, state_before)"
    using u by (simp add: has_voted_today_no_row(2))
  have n: "Some ''ev-1'' \<notin> set (map a_id (avaliacoes state_before))"
    by (simp add: state_before_def row_tablet3_def row_tablet4_def)
  have "\<exists>st'. submit_evaluation env_2200 state_before (JObj first_vote) =
           ((Saved (JStr ''ev-1''), 200), st') \<and>
      avaliacoes st' = avaliacoes state_before @
        [\<lparr>a_id = Some ''ev-1'', a_dispositivo_id = ''tablet-1'',
          a_timestamp = ''2024-01-02T01:00:00.000Z'', a_avaliacao_geral = ''otimo'',
          a_setores = Some (json_dumps (case map_of first_vote ''setores'' of None \<Rightarrow> JObj []
                                        | Some v \<Rightarrow> v)),
          a_feedback = text_affinity (SqlText []),
          a_created_at = current_timestamp env_2200\<rparr>] \<and>
      controle_votacao st' =
        filter (\<lambda>r. c_dispositivo_id r \<noteq> Some ''tablet-1'') (controle_votacao state_before) @
        [\<lparr>c_dispositivo_id = Some ''tablet-1'', c_ultimo_voto = ''2024-01-02T01:00:00.000Z'',
          c_created_at = current_timestamp env_2200,
          c_updated_at = isoformat (brazil_time env_2200)\<rparr>]"
    by (rule submit_evaluation_accepted [OF _ _ _ _ _ u v n]) (simp_all add: first_vote_def)
  then obtain st1 where
    s1: "submit_evaluation env_2200 state_before (JObj first_vote) =
           ((Saved (JStr ''ev-1''), 200), st1)"
    and a1: "avaliacoes st1 = avaliacoes state_before @
        [\<lparr>a_id = Some ''ev-1'', a_dispositivo_id = ''tablet-1'',
          a_timestamp = ''2024-01-02T01:00:00.000Z'', a_avaliacao_geral = ''otimo'',
          a_setores = Some (json_dumps (case map_of first_vote ''setores'' of None \<Rightarrow> JObj []
                                        | Some v \<Rightarrow> v)),
          a_feedback = text_affinity (SqlText []),
          a_created_at = current_timestamp env_2200\<rparr>]"
    and c1: "controle_votacao st1 =
        filter (\<lambda>r. c_dispositivo_id r \<noteq> Some ''tablet-1'') (controle_votacao state_before) @
        [\<lparr>c_dispositivo_id = Some ''tablet-1'', c_ultimo_voto = ''2024-01-02T01:00:00.000Z'',
          c_created_at = current_timestamp env_2200,
          c_updated_at = isoformat (brazil_time env_2200)\<rparr>]"
    by blast
  let ?r = "\<lparr>c_dispositivo_id = Some ''tablet-1'', c_ultimo_voto = ''2024-01-02T01:00:00.000Z'',
          c_created_at = current_timestamp env_2200,
          c_updated_at = isoformat (brazil_time env_2200)\<rparr>"
  have f: "find (\<lambda>r. c_dispositivo_id r = Some ''tablet-1'') (controle_votacao st1) = Some ?r"
    unfolding c1 by (simp add: state_before_def vote_tablet3_def)
  have p: "fromisoformat (replace_Z (c_ultimo_voto ?r)) = Some first_vote_instant"
    using fromisoformat_first_vote by simp
  have v2: "has_voted_today env_up st1 (JStr ''tablet-1'') = (False, st1)"
    by (rule has_voted_today_other_date [OF store_up_env_up f p first_vote_other_date])
  have n2: "Some ''ev-2'' \<notin> set (map a_id (avaliacoes st1))"
    unfolding a1 by (simp add: state_before_def row_tablet3_def row_tablet4_def)
  have "\<exists>st'. submit_evaluation env_up st1 (JObj second_vote) =
           ((Saved (JStr ''ev-2''), 200), st') \<and>
      avaliacoes st' = avaliacoes st1 @
        [\<lparr>a_id = Some ''ev-2'', a_dispositivo_id = ''tablet-1'',
          a_timestamp = ''2024-01-02T01:30:00.000Z'', a_avaliacao_geral = ''bom'',
          a_setores = Some (json_dumps (case map_of second_vote ''setores'' of None \<Rightarrow> JObj []
                                        | Some v \<Rightarrow> v)),
          a_feedback = text_affinity (SqlText []),
          a_created_at = current_timestamp env_up\<rparr>] \<and>
      controle_votacao st' =
        filter (\<lambda>r. c_dispositivo_id r \<noteq> Some ''tablet-1'') (controle_votacao st1) @
        [\<lparr>c_dispositivo_id = Some ''tablet-1'', c_ultimo_voto = ''2024-01-02T01:30:00.000Z'',
          c_created_at = current_timestamp env_up,
          c_updated_at = isoformat (brazil_time env_up)\<rparr>]"
    by (rule submit_evaluation_accepted [OF _ _ _ _ _ store_up_env_up v2 n2])
      (simp_all add: second_vote_def)
  then obtain st2 where
    s2: "submit_evaluation env_up st1 (JObj second_vote) = ((Saved (JStr ''ev-2''), 200), st2)"
    and a2: "avaliacoes st2 = avaliacoes st1 @
        [\<lparr>a_id = Some ''ev-2'', a_dispositivo_id = ''tablet-1'',
          a_timestamp = ''2024-01-02T01:30:00.000Z'', a_avaliacao_geral = ''bom'',
          a_setores = Some (json_dumps (case map_of second_vote ''setores'' of None \<Rightarrow> JObj []
                                        | Some v \<Rightarrow> v)),
          a_feedback = text_affinity (SqlText []),
          a_created_at = current_timestamp env_up\<rparr>]"
    by blast
  have d: "is_same_day (brazil_time env_2200) (brazil_time env_up)"
    by (simp add: is_same_day_def date_of_def env_2200_def env_up_def evening_def)
  have ids: "map a_id (filter (\<lambda>r. a_dispositivo_id r = ''tablet-1'') (avaliacoes st2)) =
       [Some ''ev-1'', Some ''ev-2'']"
    unfolding a2 a1 by (simp add: state_before_def row_tablet3_def row_tablet4_def)
  have len: "length (avaliacoes st2) = length (avaliacoes state_before) + 2"
    unfolding a2 a1 by simp
  show ?thesis
    by (rule exI [of _ st1], rule exI [of _ st2]) (intro conjI s1 s2 d ids len)
qed

end
